theory Spec2Isabelle
  imports Complex_Main "HOL-Library.Word" "HOL-Library.Sublist"
begin

section \<open>Values shared by the handlers\<close>

text \<open>
  A JavaScript string is modelled as a \<^typ>\<open>string\<close>: one \<^typ>\<open>char\<close> stands for one code
  unit, so \<^const>\<open>length\<close>, \<^const>\<open>take\<close> and \<^const>\<open>drop\<close> are \<open>.length\<close> and \<open>.substring\<close>;
  code units above 255 are outside the model. A JSON number is taken at its decimal value.
\<close>

datatype json =
    JNull
  | JBool bool
  | JNum rat
  | JStr string
  | JArr "json list"
  | JObj "(string \<times> json) list"

text \<open>What a \<open>catch (e)\<close> can receive: an \<open>Error\<close> with its message, or any other value.\<close>

datatype thrown = Error string | NonError

type_synonym byte = "8 word"

record viewport =
  width :: rat
  height :: rat

datatype chat_message = Message string string

datatype ai_inputs =
    ImagePrompt "string option" "byte list"
  | TextPrompt string
  | Chat "chat_message list" nat rat

text \<open>
  Every call that leaves the worker is recorded, in order, whether it resolves or rejects.
\<close>

datatype event =
    RequestJson
  | Launch
  | NewPage
  | SetViewport viewport
  | Goto string
  | WaitForSelector string nat
  | Screenshot bool
  | Evaluate
  | Content
  | AiRun string ai_inputs
  | Close
  | HttpPost string string string
  | ResponseText
  | ResponseJson
  | ConsoleLog
  | ConsoleError

type_synonym 'a io = "(thrown + 'a) \<times> event list"

definition ret :: "'a \<Rightarrow> 'a io" where
  "ret x = (Inr x, [])"

definition call :: "event \<Rightarrow> thrown + 'a \<Rightarrow> 'a io" where
  "call ev outcome = (outcome, [ev])"

definition await :: "'a io \<Rightarrow> ('a \<Rightarrow> 'b io) \<Rightarrow> 'b io" where
  "await m f =
     (case m of
        (Inl e, t) \<Rightarrow> (Inl e, t)
      | (Inr x, t) \<Rightarrow> (case f x of (r, t') \<Rightarrow> (r, t @ t')))"

definition acquired :: "event list \<Rightarrow> nat" where
  "acquired t = count_list t Launch"

definition released :: "event list \<Rightarrow> nat" where
  "released t = count_list t Close"

fun is_AiRun :: "event \<Rightarrow> bool" where
  "is_AiRun (AiRun m i) = True"
| "is_AiRun _ = False"

definition inference_calls :: "event list \<Rightarrow> event list" where
  "inference_calls t = filter is_AiRun t"



fun models_invoked :: "event list \<Rightarrow> string list" where
  "models_invoked [] = []"
| "models_invoked (AiRun m i # t) = m # models_invoked t"
| "models_invoked (e # t) = models_invoked t"

section \<open>src/index.ts: input validation\<close>

text \<open>
  The schema library reports issues with a path; a parse is aborted (no value), or
  produces a value that is valid when there are no issues and dirty otherwise. A
  refinement of an object runs unless the object parse was aborted.
\<close>

datatype issue_message =
    Custom string
  | Invalid_type
  | Invalid_enum_value
  | Not_int
  | Not_positive

type_synonym issue = "string list \<times> issue_message"

type_synonym 'a parsed = "issue list \<times> 'a option"

type_synonym 'a schema = "string list \<Rightarrow> json option \<Rightarrow> 'a parsed"

definition z_string :: "string schema" where
  "z_string p inp =
     (case inp of Some (JStr s) \<Rightarrow> ([], Some s) | _ \<Rightarrow> ([(p, Invalid_type)], None))"

definition z_number :: "rat schema" where
  "z_number p inp =
     (case inp of Some (JNum r) \<Rightarrow> ([], Some r) | _ \<Rightarrow> ([(p, Invalid_type)], None))"

definition z_boolean :: "bool schema" where
  "z_boolean p inp =
     (case inp of Some (JBool b) \<Rightarrow> ([], Some b) | _ \<Rightarrow> ([(p, Invalid_type)], None))"

definition z_enum :: "(string \<times> 'a) list \<Rightarrow> 'a schema" where
  "z_enum values p inp =
     (case inp of
        Some (JStr s) \<Rightarrow>
          (case map_of values s of
             Some v \<Rightarrow> ([], Some v)
           | None \<Rightarrow> ([(p, Invalid_enum_value)], None))
      | _ \<Rightarrow> ([(p, Invalid_type)], None))"

definition z_check :: "('a \<Rightarrow> bool) \<Rightarrow> issue_message \<Rightarrow> 'a schema \<Rightarrow> 'a schema" where
  "z_check ok msg s p inp =
     (case s p inp of
        (is, Some v) \<Rightarrow> (if ok v then (is, Some v) else (is @ [(p, msg)], Some v))
      | (is, None) \<Rightarrow> (is, None))"

definition z_optional :: "'a schema \<Rightarrow> 'a option schema" where
  "z_optional s p inp =
     (case inp of
        None \<Rightarrow> ([], Some None)
      | Some j \<Rightarrow> (case s p inp of (is, v) \<Rightarrow> (is, map_option Some v)))"

definition z_optional_default :: "json \<Rightarrow> 'a schema \<Rightarrow> 'a schema" where
  "z_optional_default d s p inp = (case inp of None \<Rightarrow> s p (Some d) | Some j \<Rightarrow> s p inp)"

definition z_field :: "'a schema \<Rightarrow> string list \<Rightarrow> (string \<times> json) list \<Rightarrow> string \<Rightarrow> 'a parsed" where
  "z_field s p kvs k = s (p @ [k]) (map_of kvs k)"

definition z_and :: "'a parsed \<Rightarrow> 'b parsed \<Rightarrow> ('a \<times> 'b) parsed" where
  "z_and a b =
     (fst a @ fst b,
      case (snd a, snd b) of (Some x, Some y) \<Rightarrow> Some (x, y) | _ \<Rightarrow> None)"

definition z_map :: "('a \<Rightarrow> 'b) \<Rightarrow> 'a parsed \<Rightarrow> 'b parsed" where
  "z_map f a = (fst a, map_option f (snd a))"

definition is_integer :: "rat \<Rightarrow> bool" where
  "is_integer r = (of_int \<lfloor>r\<rfloor> = r)"

definition z_int_positive :: "rat schema" where
  "z_int_positive = z_check (\<lambda>r. 0 < r) Not_positive (z_check is_integer Not_int z_number)"

definition ViewportSchema :: "viewport schema" where
  "ViewportSchema p inp =
     (case inp of
        Some (JObj kvs) \<Rightarrow>
          z_map (\<lambda>(w, h). \<lparr>width = w, height = h\<rparr>)
            (z_and (z_field z_int_positive p kvs ''width'')
                   (z_field z_int_positive p kvs ''height''))
      | _ \<Rightarrow> ([(p, Invalid_type)], None))"

record render_options =
  viewport :: "viewport option"
  fullPage :: bool
  waitForSelector :: "string option"

definition RenderOptionsSchema :: "render_options schema" where
  "RenderOptionsSchema p inp =
     (case inp of
        Some (JObj kvs) \<Rightarrow>
          z_map (\<lambda>(v, f, w). \<lparr>viewport = v, fullPage = f, waitForSelector = w\<rparr>)
            (z_and (z_field (z_optional ViewportSchema) p kvs ''viewport'')
            (z_and (z_field (z_optional_default (JBool False) z_boolean) p kvs ''fullPage'')
                   (z_field (z_optional z_string) p kvs ''waitForSelector'')))
      | _ \<Rightarrow> ([(p, Invalid_type)], None))"

datatype action = analyze_image | summarize_text | extract_html

record request_data =
  url :: string
  action :: action
  prompt :: "string option"
  model :: string
  renderOptions :: render_options

definition default_model :: string where
  "default_model = ''@cf/llava-1.5-7b-hf''"

definition RequestObject :: "(string \<Rightarrow> bool) \<Rightarrow> request_data schema" where
  "RequestObject valid_url p inp =
     (case inp of
        Some (JObj kvs) \<Rightarrow>
          z_map (\<lambda>(u, a, pr, m, r).
                   \<lparr>url = u, action = a, prompt = pr, model = m, renderOptions = r\<rparr>)
            (z_and (z_field (z_check valid_url (Custom ''A valid URL is required.'') z_string)
                      p kvs ''url'')
            (z_and (z_field (z_enum [(''analyze_image'', analyze_image),
                                     (''summarize_text'', summarize_text),
                                     (''extract_html'', extract_html)]) p kvs ''action'')
            (z_and (z_field (z_optional z_string) p kvs ''prompt'')
            (z_and (z_field (z_optional_default (JStr default_model) z_string) p kvs ''model'')
                   (z_field (z_optional_default (JObj []) RenderOptionsSchema)
                      p kvs ''renderOptions'')))))
      | _ \<Rightarrow> ([(p, Invalid_type)], None))"

text \<open>Truthiness of an optional string: \<open>undefined\<close> and the empty string are falsy.\<close>

definition truthy :: "string option \<Rightarrow> bool" where
  "truthy s = (case s of None \<Rightarrow> False | Some x \<Rightarrow> x \<noteq> [])"

definition prompt_refinement :: "request_data \<Rightarrow> bool" where
  "prompt_refinement d = (\<not> (action d = analyze_image \<and> \<not> truthy (prompt d)))"

definition RequestSchema :: "(string \<Rightarrow> bool) \<Rightarrow> request_data schema" where
  "RequestSchema valid_url p inp =
     (case RequestObject valid_url p inp of
        (is, None) \<Rightarrow> (is, None)
      | (is, Some d) \<Rightarrow>
          (if prompt_refinement d then (is, Some d)
           else (is @ [(p @ [''prompt''],
                        Custom ''A `prompt` is required when `action` is `analyze_image`.'')],
                 Some d)))"

definition safeParse :: "'a schema \<Rightarrow> json \<Rightarrow> issue list + 'a" where
  "safeParse s body =
     (case s [] (Some body) of
        ([], Some d) \<Rightarrow> Inr d
      | (is, _) \<Rightarrow> Inl is)"

record flattened =
  formErrors :: "issue_message list"
  fieldErrors :: "(string \<times> issue_message list) list"

fun add_field_error :: "string \<Rightarrow> issue_message \<Rightarrow> (string \<times> issue_message list) list
    \<Rightarrow> (string \<times> issue_message list) list" where
  "add_field_error k m [] = [(k, [m])]"
| "add_field_error k m ((k', ms) # rest) =
     (if k = k' then (k', ms @ [m]) # rest else (k', ms) # add_field_error k m rest)"

fun flatten_into :: "issue list \<Rightarrow> flattened \<Rightarrow> flattened" where
  "flatten_into [] acc = acc"
| "flatten_into (([], m) # is) acc = flatten_into is (acc\<lparr>formErrors := formErrors acc @ [m]\<rparr>)"
| "flatten_into ((k # ks, m) # is) acc =
     flatten_into is (acc\<lparr>fieldErrors := add_field_error k m (fieldErrors acc)\<rparr>)"

definition flatten :: "issue list \<Rightarrow> flattened" where
  "flatten is = flatten_into is \<lparr>formErrors = [], fieldErrors = []\<rparr>"

subsection \<open>The declared types of the members\<close>

text \<open>
  Read off the schema: what each member of the body must be for the object schema to
  produce a value. The checks of the values (a valid URL, positive integers) and the
  refinement are not part of it.
\<close>

definition absent_or :: "(json \<Rightarrow> bool) \<Rightarrow> json option \<Rightarrow> bool" where
  "absent_or t m = (case m of None \<Rightarrow> True | Some j \<Rightarrow> t j)"

definition is_JStr :: "json \<Rightarrow> bool" where
  "is_JStr j = (case j of JStr s \<Rightarrow> True | _ \<Rightarrow> False)"

definition is_JBool :: "json \<Rightarrow> bool" where
  "is_JBool j = (case j of JBool b \<Rightarrow> True | _ \<Rightarrow> False)"

definition is_JNum :: "json option \<Rightarrow> bool" where
  "is_JNum m = (case m of Some (JNum r) \<Rightarrow> True | _ \<Rightarrow> False)"

definition viewport_typed :: "json \<Rightarrow> bool" where
  "viewport_typed j =
     (case j of
        JObj kvs \<Rightarrow> is_JNum (map_of kvs ''width'') \<and> is_JNum (map_of kvs ''height'')
      | _ \<Rightarrow> False)"

definition render_options_typed :: "json \<Rightarrow> bool" where
  "render_options_typed j =
     (case j of
        JObj kvs \<Rightarrow>
          absent_or viewport_typed (map_of kvs ''viewport'')
          \<and> absent_or is_JBool (map_of kvs ''fullPage'')
          \<and> absent_or is_JStr (map_of kvs ''waitForSelector'')
      | _ \<Rightarrow> False)"

definition members_typed :: "(string \<times> json) list \<Rightarrow> bool" where
  "members_typed kvs =
     ((case map_of kvs ''url'' of Some j \<Rightarrow> is_JStr j | None \<Rightarrow> False)
      \<and> map_of kvs ''action'' \<in> {Some (JStr ''analyze_image''), Some (JStr ''summarize_text''),
                                   Some (JStr ''extract_html'')}
      \<and> absent_or is_JStr (map_of kvs ''prompt'')
      \<and> absent_or is_JStr (map_of kvs ''model'')
      \<and> absent_or render_options_typed (map_of kvs ''renderOptions''))"

section \<open>src/index.ts: the handler\<close>

text \<open>
  The request as the handler reads it: its method, and what \<open>request.json()\<close> resolves to.
\<close>

record request =
  request_method :: string
  json_body :: "thrown + json"

text \<open>
  The remote services, one outcome per call (\<open>Inl\<close>: the call rejects), so that a fault
  can be injected at every stage; \<open>valid_url\<close> is the schema library's URL check and the
  two clock readings are \<open>Date.now()\<close> before and after the pipeline.
\<close>

record env =
  valid_url :: "string \<Rightarrow> bool"
  startTime :: int
  endTime :: int
  puppeteer_launch :: "thrown + unit"
  browser_newPage :: "thrown + unit"
  page_setViewport :: "viewport \<Rightarrow> thrown + unit"
  page_goto :: "string \<Rightarrow> thrown + unit"
  page_waitForSelector :: "string \<Rightarrow> thrown + unit"
  page_screenshot :: "bool \<Rightarrow> thrown + byte list"
  page_innerText :: "thrown + string"
  page_content :: "thrown + string"
  AI_run :: "string \<Rightarrow> ai_inputs \<Rightarrow> thrown + string"
  browser_close :: "thrown + unit"

datatype data =
    ImageData string
  | SummaryData string string
  | HtmlData string

fun data_modelUsed :: "data \<Rightarrow> string option" where
  "data_modelUsed (ImageData r) = None"
| "data_modelUsed (SummaryData r m) = Some m"
| "data_modelUsed (HtmlData h) = None"

record metadata =
  meta_url :: string
  meta_action :: action
  modelUsed :: string
  executionTimeMs :: int

record error_body =
  message :: string
  details :: "flattened option"

datatype body =
    Text string
  | Failure error_body
  | Success data metadata

fun success :: "body \<Rightarrow> bool option" where
  "success (Text s) = None"
| "success (Failure e) = Some False"
| "success (Success d m) = Some True"

record response =
  status :: nat
  body :: body

definition launchAndNavigate :: "env \<Rightarrow> string \<Rightarrow> render_options \<Rightarrow> unit io" where
  "launchAndNavigate env u options =
     await (call Launch (puppeteer_launch env)) (\<lambda>_.
     await (call NewPage (browser_newPage env)) (\<lambda>_.
     await (case viewport options of
              Some v \<Rightarrow> call (SetViewport v) (page_setViewport env v)
            | None \<Rightarrow> ret ()) (\<lambda>_.
     await (call (Goto u) (page_goto env u)) (\<lambda>_.
     (if truthy (waitForSelector options)
      then (case waitForSelector options of
              Some sel \<Rightarrow> call (WaitForSelector sel 10000) (page_waitForSelector env sel)
            | None \<Rightarrow> ret ())
      else ret ())))))"

definition newline :: char where
  "newline = CHR 0x0A"

definition summarization_scaffolding :: string where
  "summarization_scaffolding =
     ''Please provide a concise summary of the following text extracted from a webpage:''
     @ [newline, newline] @ ''---'' @ [newline, newline]"

definition textModel :: string where
  "textModel = ''@cf/meta/llama-2-7b-chat-int8''"

text \<open>The \<open>switch (action)\<close>; the page it opens stays open when the switch is left.\<close>

definition route :: "env \<Rightarrow> request_data \<Rightarrow> data io" where
  "route env d =
     (case action d of
        analyze_image \<Rightarrow>
          await (launchAndNavigate env (url d) (renderOptions d)) (\<lambda>_.
          await (call (Screenshot (fullPage (renderOptions d)))
                   (page_screenshot env (fullPage (renderOptions d)))) (\<lambda>screenshotBuffer.
          await (call (AiRun (model d) (ImagePrompt (prompt d) screenshotBuffer))
                   (AI_run env (model d) (ImagePrompt (prompt d) screenshotBuffer))) (\<lambda>aiResponse.
          ret (ImageData aiResponse))))
      | summarize_text \<Rightarrow>
          await (launchAndNavigate env (url d) (renderOptions d)) (\<lambda>_.
          await (call Evaluate (page_innerText env)) (\<lambda>pageText.
          let summarizationPrompt = summarization_scaffolding @ take 8000 pageText in
          await (call (AiRun textModel (TextPrompt summarizationPrompt))
                   (AI_run env textModel (TextPrompt summarizationPrompt))) (\<lambda>aiResponse.
          ret (SummaryData aiResponse textModel))))
      | extract_html \<Rightarrow>
          await (launchAndNavigate env (url d) (renderOptions d)) (\<lambda>_.
          await (call Content (page_content env)) (\<lambda>html.
          ret (HtmlData html))))"

definition or_model :: "string option \<Rightarrow> string \<Rightarrow> string" where
  "or_model used m = (if truthy used then (case used of Some x \<Rightarrow> x | None \<Rightarrow> m) else m)"

text \<open>The body of the \<open>try\<close> block.\<close>

definition try_block :: "request \<Rightarrow> env \<Rightarrow> response io" where
  "try_block req env =
     await (call RequestJson (json_body req)) (\<lambda>b.
     (case safeParse (RequestSchema (valid_url env)) b of
        Inl issues \<Rightarrow>
          ret \<lparr>status = 400,
               body = Failure \<lparr>message = ''Invalid request body.'',
                                details = Some (flatten issues)\<rparr>\<rparr>
      | Inr d \<Rightarrow>
          await (route env d) (\<lambda>dat.
          await (call Close (browser_close env)) (\<lambda>_.
          ret \<lparr>status = 200,
               body = Success dat
                        \<lparr>meta_url = url d, meta_action = action d,
                         modelUsed = or_model (data_modelUsed dat) (model d),
                         executionTimeMs = endTime env - startTime env\<rparr>\<rparr>))))"

definition errorMessage :: "thrown \<Rightarrow> string" where
  "errorMessage e = (case e of Error m \<Rightarrow> m | NonError \<Rightarrow> ''An unknown error occurred.'')"

definition fetch :: "request \<Rightarrow> env \<Rightarrow> response \<times> event list" where
  "fetch req env =
     (if request_method req \<noteq> ''POST''
      then (\<lparr>status = 405, body = Text ''Method Not Allowed. Please use POST.''\<rparr>, [])
      else (case try_block req env of
              (Inr resp, t) \<Rightarrow> (resp, t)
            | (Inl e, t) \<Rightarrow>
                (\<lparr>status = 500,
                  body = Failure
                    \<lparr>message = ''An internal server error occurred: '' @ errorMessage e,
                     details = None\<rparr>\<rparr>,
                 t @ [ConsoleError])))"

section \<open>The link-analysis branch of the second worker (\<open>POST /analyze-link\<close>)\<close>

text \<open>
  The body is read as \<open>{ url: string }\<close>; \<open>link_url\<close> is its \<open>url\<close> member when the body
  parses. \<open>URL_ok\<close> says whether \<open>new URL(u)\<close> returns.
\<close>

record link_request =
  link_url :: "thrown + string option"

record link_env =
  URL_ok :: "string \<Rightarrow> bool"
  link_launch :: "thrown + unit"
  link_newPage :: "thrown + unit"
  link_goto :: "string \<Rightarrow> thrown + unit"
  link_textContent :: "thrown + string"
  link_close :: "thrown + unit"
  link_AI_run :: "string \<Rightarrow> ai_inputs \<Rightarrow> thrown + string"
  link_timestamp :: string

datatype link_body =
    LinkError string
  | LinkFailure string string
  | LinkAnalysis string string string

record link_response =
  link_status :: nat
  link_body :: link_body

definition try_catch :: "'a io \<Rightarrow> (thrown \<Rightarrow> 'a io) \<Rightarrow> 'a io" where
  "try_catch m h =
     (case m of
        (Inl e, t) \<Rightarrow> (case h e of (r, t') \<Rightarrow> (r, t @ t'))
      | (Inr x, t) \<Rightarrow> (Inr x, t))"

text \<open>\<open>finally\<close>: the cleanup runs on both outcomes; when it rejects, its error wins.\<close>

definition with_finally :: "'a io \<Rightarrow> unit io \<Rightarrow> 'a io" where
  "with_finally m c =
     (case m of (r, t) \<Rightarrow>
        (case c of
           (Inl e, t') \<Rightarrow> (Inl e, t @ t')
         | (Inr u, t') \<Rightarrow> (r, t @ t')))"

definition unknown_or_message :: "thrown \<Rightarrow> string" where
  "unknown_or_message e = (case e of Error m \<Rightarrow> m | NonError \<Rightarrow> ''Unknown error'')"

definition link_scaffolding :: string where
  "link_scaffolding =
     ''Summarize the following text from a webpage. Focus on key information and main points. If the text is too short or irrelevant, state that.''
     @ [newline] @ ''        '' @ [newline] @ ''        Text:'' @ [newline] @ ''        ''"

definition link_model :: string where
  "link_model = ''@cf/google/gemma-3-12b-it''"

definition limit_content :: "string \<Rightarrow> string" where
  "limit_content pageContent =
     (if length pageContent > 10000 then take 10000 pageContent @ ''...'' else pageContent)"

definition link_inputs :: "string \<Rightarrow> ai_inputs" where
  "link_inputs aiPrompt =
     Chat [Message ''system'' ''You are a helpful assistant that summarizes web page content.'',
           Message ''user'' aiPrompt] 2000 (2 / 10)"

text \<open>The inner \<open>try\<close>/\<open>catch\<close>/\<open>finally\<close>: \<open>Inl\<close> is the response its \<open>catch\<close> returns.\<close>

definition load_content :: "link_env \<Rightarrow> string \<Rightarrow> (link_response + string) io" where
  "load_content env u =
     with_finally
       (try_catch
          (await (call (Goto u) (link_goto env u)) (\<lambda>_.
           await (call Evaluate (link_textContent env)) (\<lambda>c.
           ret (Inr c))))
          (\<lambda>e. await (call ConsoleError (Inr ())) (\<lambda>_.
                ret (Inl \<lparr>link_status = 500,
                          link_body = LinkError
                            (''Failed to load or extract content from URL: ''
                             @ unknown_or_message e)\<rparr>))))
       (call Close (link_close env))"

definition link_try_block :: "link_request \<Rightarrow> link_env \<Rightarrow> link_response io" where
  "link_try_block req env =
     await (call RequestJson (link_url req)) (\<lambda>urlToAnalyze.
     (if \<not> truthy urlToAnalyze
      then ret \<lparr>link_status = 400, link_body = LinkError ''URL to analyze is required''\<rparr>
      else (case urlToAnalyze of
              None \<Rightarrow> ret \<lparr>link_status = 400, link_body = LinkError ''URL to analyze is required''\<rparr>
            | Some u \<Rightarrow>
                (if \<not> URL_ok env u
                 then ret \<lparr>link_status = 400, link_body = LinkError ''Invalid URL format''\<rparr>
                 else
                   await (call Launch (link_launch env)) (\<lambda>_.
                   await (call NewPage (link_newPage env)) (\<lambda>_.
                   await (load_content env u) (\<lambda>r.
                   (case r of
                      Inl resp \<Rightarrow> ret resp
                    | Inr pageContent \<Rightarrow>
                        let aiPrompt = link_scaffolding @ limit_content pageContent in
                        await (call (AiRun link_model (link_inputs aiPrompt))
                                 (link_AI_run env link_model (link_inputs aiPrompt)))
                          (\<lambda>aiResponse.
                        ret \<lparr>link_status = 200,
                             link_body = LinkAnalysis aiResponse u (link_timestamp env)\<rparr>)))))))))"

definition analyze_link :: "link_request \<Rightarrow> link_env \<Rightarrow> link_response \<times> event list" where
  "analyze_link req env =
     (case link_try_block req env of
        (Inr resp, t) \<Rightarrow> (resp, t)
      | (Inl e, t) \<Rightarrow>
          (\<lparr>link_status = 500,
            link_body = LinkFailure ''Failed to analyze link'' (unknown_or_message e)\<rparr>,
           t @ [ConsoleError]))"

section \<open>The scraping worker: \<open>getLLMResult\<close>\<close>

subsection \<open>The regular expression, run by backtracking\<close>

datatype regex =
    Lit string
  | Opt regex
  | Star "char \<Rightarrow> bool"
  | LazyStar "char \<Rightarrow> bool"
  | Group regex
  | Seq regex regex

text \<open>
  The matcher is written with a continuation for the rest of the pattern: a greedy
  star tries the longer match first, a lazy one the shorter; \<open>None\<close> makes the caller
  backtrack. The state is the rest of the input and what group 1 has captured.
\<close>

fun star :: "(char \<Rightarrow> bool) \<Rightarrow> string \<Rightarrow> (string \<Rightarrow> 'r option) \<Rightarrow> 'r option" where
  "star cls [] k = k []"
| "star cls (c # cs) k =
     (if cls c
      then (case star cls cs k of Some r \<Rightarrow> Some r | None \<Rightarrow> k (c # cs))
      else k (c # cs))"

fun lazy_star :: "(char \<Rightarrow> bool) \<Rightarrow> string \<Rightarrow> (string \<Rightarrow> 'r option) \<Rightarrow> 'r option" where
  "lazy_star cls [] k = k []"
| "lazy_star cls (c # cs) k =
     (case k (c # cs) of
        Some r \<Rightarrow> Some r
      | None \<Rightarrow> (if cls c then lazy_star cls cs k else None))"

primrec run :: "regex \<Rightarrow> string \<Rightarrow> string option
    \<Rightarrow> (string \<Rightarrow> string option \<Rightarrow> 'r option) \<Rightarrow> 'r option" where
  "run (Lit l) = (\<lambda>s cap k. if prefix l s then k (drop (length l) s) cap else None)"
| "run (Opt r) = (\<lambda>s cap k. case run r s cap k of Some x \<Rightarrow> Some x | None \<Rightarrow> k s cap)"
| "run (Star cls) = (\<lambda>s cap k. star cls s (\<lambda>s'. k s' cap))"
| "run (LazyStar cls) = (\<lambda>s cap k. lazy_star cls s (\<lambda>s'. k s' cap))"
| "run (Group r) =
     (\<lambda>s cap k. run r s cap (\<lambda>s' _. k s' (Some (take (length s - length s') s))))"
| "run (Seq a b) = (\<lambda>s cap k. run a s cap (\<lambda>s' cap'. run b s' cap' k))"

text \<open>A match anchored at the start of \<open>s\<close>: \<open>Some\<close> of group 1 when the pattern matches.\<close>

definition match_here :: "regex \<Rightarrow> string \<Rightarrow> string option option" where
  "match_here r s = run r s None (\<lambda>s' cap. Some cap)"

text \<open>\<open>text.match(r)\<close>: the leftmost start at which the pattern matches.\<close>

fun match :: "regex \<Rightarrow> string \<Rightarrow> string option option" where
  "match r [] = match_here r []"
| "match r (c # cs) =
     (case match_here r (c # cs) of Some cap \<Rightarrow> Some cap | None \<Rightarrow> match r cs)"

text \<open>The class \<open>\s\<close>: tab, line feed, vertical tab, form feed, carriage return, space, no-break space.\<close>

definition is_space :: "char \<Rightarrow> bool" where
  "is_space c = (c \<in> set [CHR 0x09, CHR 0x0A, CHR 0x0B, CHR 0x0C, CHR 0x0D, CHR 0x20, CHR 0xA0])"

definition fence :: string where
  "fence = ''```''"

definition fenced_block :: regex where
  "fenced_block =
     Seq (Lit fence) (Seq (Opt (Lit ''json'')) (Seq (Star is_space)
       (Seq (Group (LazyStar (\<lambda>c. True))) (Seq (Star is_space) (Lit fence)))))"

text \<open>Whether three backticks occur somewhere in a string.\<close>

fun has_fence :: "string \<Rightarrow> bool" where
  "has_fence [] = False"
| "has_fence (c # cs) = (prefix fence (c # cs) \<or> has_fence cs)"

text \<open>\<open>(text.match(...) || [null, text])[1]\<close>; \<open>None\<close> is \<open>undefined\<close>.\<close>

definition candidate :: "string \<Rightarrow> string option" where
  "candidate text = (case match fenced_block text of Some cap \<Rightarrow> cap | None \<Rightarrow> Some text)"

subsection \<open>The fenced block, read directly\<close>

text \<open>
  The specification's words, as a scan from left to right: the reply is searched for a
  block delimited by triple backticks, optionally tagged \<open>json\<close>, and the interior of
  the first such block is taken. A block opens at a fence, after which the tag and white
  space are skipped; its interior ends where only white space separates it from the
  next fence. This is compared with the regular expression below.
\<close>

definition closes :: "string \<Rightarrow> bool" where
  "closes t = prefix fence (dropWhile is_space t)"

fun upto_close :: "string \<Rightarrow> string option" where
  "upto_close [] = None"
| "upto_close (c # cs) =
     (if closes (c # cs) then Some [] else map_option ((#) c) (upto_close cs))"

definition block_interior :: "string \<Rightarrow> string option" where
  "block_interior s =
     (if prefix fence s
      then (let r = drop (length fence) s;
                r' = (if prefix ''json'' r then drop (length ''json'') r else r)
            in upto_close (dropWhile is_space r'))
      else None)"

fun first_block_interior :: "string \<Rightarrow> string option" where
  "first_block_interior [] = None"
| "first_block_interior (c # cs) =
     (case block_interior (c # cs) of
        Some b \<Rightarrow> Some b
      | None \<Rightarrow> first_block_interior cs)"

subsection \<open>The call to the model\<close>

function string_of_nat :: "nat \<Rightarrow> string" where
  "string_of_nat n =
     (if n < 10 then [char_of (48 + n)]
      else string_of_nat (n div 10) @ [char_of (48 + n mod 10)])"
  by pat_completeness auto
termination
  by (relation "measure (\<lambda>n. n)") auto

record http_response =
  ok :: bool
  http_status :: nat
  response_text :: "thrown + string"
  response_json :: "thrown + string"

text \<open>
  \<open>response_json\<close> is \<open>data.result.response\<close> of the parsed body, typed as a string by
  the source; \<open>JSON_parse\<close> is the built-in parser, \<open>None\<close> where it throws.
\<close>

record llm_env =
  ACCOUNT_ID :: string
  API_TOKEN :: string
  http_fetch :: "string \<Rightarrow> string \<Rightarrow> thrown + http_response"
  JSON_parse :: "string \<Rightarrow> json option"

definition llm_model :: string where
  "llm_model = ''@hf/thebloke/deepseek-coder-6.7b-instruct-awq''"

definition aiUrl :: "llm_env \<Rightarrow> string" where
  "aiUrl env =
     ''https://api.cloudflare.com/client/v4/accounts/'' @ ACCOUNT_ID env @ ''/ai/run/'' @ llm_model"

definition or_empty :: "string \<Rightarrow> string" where
  "or_empty s = (if s = [] then [] else s)"

text \<open>The result is \<open>None\<close> where the function returns \<open>undefined\<close>.\<close>

definition getLLMResult :: "llm_env \<Rightarrow> string \<Rightarrow> json option io" where
  "getLLMResult env p =
     await (call (HttpPost (aiUrl env) (API_TOKEN env) p) (http_fetch env (aiUrl env) p))
       (\<lambda>response.
     await (if \<not> ok response
            then await (call ResponseText (response_text response)) (\<lambda>_.
                 await (call ConsoleLog (Inr ())) (\<lambda>_.
                 (Inl (Error (''LLM call failed '' @ aiUrl env @ '' ''
                              @ string_of_nat (http_status response))), [])))
            else ret ()) (\<lambda>_.
     await (call ResponseJson (response_json response)) (\<lambda>reply.
     let text = or_empty reply;
         value = candidate text
     in (case JSON_parse env (case value of Some v \<Rightarrow> v | None \<Rightarrow> ''undefined'') of
           Some v \<Rightarrow> ret (Some v)
         | None \<Rightarrow> await (call ConsoleError (Inr ())) (\<lambda>_. ret None)))))"

subsection \<open>What a schema reports\<close>

text \<open>
  Used in the proofs about validation: an aborted parse has reported an issue, and
  every issue lies at or below the path the schema was run at.
\<close>

definition reported :: "string list \<Rightarrow> 'a parsed \<Rightarrow> bool" where
  "reported p a = ((snd a = None \<longrightarrow> fst a \<noteq> []) \<and> (\<forall>i \<in> set (fst a). prefix p (fst i)))"

definition reporting :: "'a schema \<Rightarrow> bool" where
  "reporting s = (\<forall>p inp. reported p (s p inp))"

section \<open>Concrete requests and services\<close>

text \<open>A page that loads, a model that answers, and a session that closes.\<close>

definition example_env :: env where
  "example_env =
     \<lparr>valid_url = (\<lambda>u. u = ''https://example.com''),
      startTime = 1000, endTime = 1250,
      puppeteer_launch = Inr (), browser_newPage = Inr (),
      page_setViewport = (\<lambda>v. Inr ()), page_goto = (\<lambda>u. Inr ()),
      page_waitForSelector = (\<lambda>sel. Inr ()),
      page_screenshot = (\<lambda>full. Inr [137, 80, 78, 71]),
      page_innerText = Inr ''Example Domain'',
      page_content = Inr ''<html><body>Example Domain</body></html>'',
      AI_run = (\<lambda>m i. Inr ''A placeholder page.''),
      browser_close = Inr ()\<rparr>"

definition example_body :: "(string \<times> json) list \<Rightarrow> json" where
  "example_body extra = JObj ((''url'', JStr ''https://example.com'') # extra)"

definition example_request :: "(string \<times> json) list \<Rightarrow> request" where
  "example_request extra = \<lparr>request_method = ''POST'', json_body = Inr (example_body extra)\<rparr>"

definition example_data :: "action \<Rightarrow> string option \<Rightarrow> string \<Rightarrow> request_data" where
  "example_data a p m =
     \<lparr>url = ''https://example.com'', action = a, prompt = p, model = m,
      renderOptions = \<lparr>viewport = None, fullPage = False, waitForSelector = None\<rparr>\<rparr>"

definition example_link_request :: link_request where
  "example_link_request = \<lparr>link_url = Inr (Some ''https://example.com'')\<rparr>"

definition example_link_env :: "string \<Rightarrow> link_env" where
  "example_link_env pageContent =
     \<lparr>URL_ok = (\<lambda>u. u = ''https://example.com''),
      link_launch = Inr (), link_newPage = Inr (), link_goto = (\<lambda>u. Inr ()),
      link_textContent = Inr pageContent, link_close = Inr (),
      link_AI_run = (\<lambda>m i. Inr ''A placeholder page.''),
      link_timestamp = ''2025-01-01T00:00:00.000Z''\<rparr>"

text \<open>
  A model service that answers \<open>reply\<close> with status \<open>code\<close>, and a parser that knows one
  document, the object \<open>{"a":1}\<close>.
\<close>

definition example_parse :: "string \<Rightarrow> json option" where
  "example_parse s = (if s = ''{\"a\":1}'' then Some (JObj [(''a'', JNum 1)]) else None)"

text \<open>A parser that knows the object \<open>{"md":"```x```"}\<close> only.\<close>

definition example_parse_md :: "string \<Rightarrow> json option" where
  "example_parse_md s =
     (if s = ''{\"md\":\"```x```\"}'' then Some (JObj [(''md'', JStr ''```x```'')]) else None)"

definition example_llm_env :: "nat \<Rightarrow> string \<Rightarrow> llm_env" where
  "example_llm_env code reply =
     \<lparr>ACCOUNT_ID = ''acct'', API_TOKEN = ''token'',
      http_fetch = (\<lambda>u p. Inr \<lparr>ok = (200 \<le> code \<and> code \<le> 299), http_status = code,
                                 response_text = Inr ''upstream error'',
                                 response_json = Inr reply\<rparr>),
      JSON_parse = example_parse\<rparr>"

section \<open>Properties\<close>

subsection \<open>Sequencing of calls\<close>

lemma await_call_Inr [simp]: "await (call ev (Inr x)) f = (fst (f x), ev # snd (f x))"
  by (simp add: await_def call_def split: prod.splits)

lemma await_call_Inl [simp]: "await (call ev (Inl e)) f = (Inl e, [ev])"
  by (simp add: await_def call_def)

lemma await_ret [simp]: "await (ret x) f = f x"
  by (simp add: await_def ret_def split: prod.splits)

lemma models_invoked_append: "models_invoked (a @ b) = models_invoked a @ models_invoked b"
  by (induction a rule: models_invoked.induct) simp_all

subsection \<open>Validation\<close>

lemma safeParse_Inr:
  "safeParse s b = Inr d \<longleftrightarrow> s [] (Some b) = ([], Some d)"
  by (auto simp: safeParse_def split: prod.splits list.splits option.splits)

lemma safeParse_Inl:
  "safeParse s b = Inl is \<longleftrightarrow>
     fst (s [] (Some b)) = is \<and> (is = [] \<longrightarrow> snd (s [] (Some b)) = None)"
  by (auto simp: safeParse_def split: prod.splits list.splits option.splits)

lemma z_and_valid:
  "z_and a b = ([], Some p) \<longleftrightarrow> a = ([], Some (fst p)) \<and> b = ([], Some (snd p))"
  by (cases a; cases b; cases p) (auto simp: z_and_def split: option.splits)

lemma z_map_valid:
  "z_map f a = ([], Some y) \<longleftrightarrow> (\<exists>x. a = ([], Some x) \<and> y = f x)"
  by (cases a) (auto simp: z_map_def)

lemma model_field_valid:
  "z_optional_default (JStr dflt) z_string p inp = ([], Some m)
     \<longleftrightarrow> (inp = None \<and> m = dflt) \<or> inp = Some (JStr m)"
  by (auto simp: z_optional_default_def z_string_def split: option.splits json.splits)

lemma RequestSchema_valid:
  assumes "RequestSchema v [] (Some b) = ([], Some d)"
  shows "RequestObject v [] (Some b) = ([], Some d) \<and> prompt_refinement d"
  using assms by (auto simp: RequestSchema_def split: prod.splits option.splits if_splits)

lemma RequestObject_fields:
  assumes "RequestObject v p (Some (JObj kvs)) = ([], Some d)"
  shows "z_field (z_check v (Custom ''A valid URL is required.'') z_string) p kvs ''url''
           = ([], Some (url d))"
    and "z_field (z_enum [(''analyze_image'', analyze_image),
                          (''summarize_text'', summarize_text),
                          (''extract_html'', extract_html)]) p kvs ''action'' = ([], Some (action d))"
    and "z_field (z_optional z_string) p kvs ''prompt'' = ([], Some (prompt d))"
    and "z_field (z_optional_default (JStr default_model) z_string) p kvs ''model''
           = ([], Some (model d))"
    and "z_field (z_optional_default (JObj []) RenderOptionsSchema) p kvs ''renderOptions''
           = ([], Some (renderOptions d))"
proof -
  let ?A = "z_and (z_field (z_check v (Custom ''A valid URL is required.'') z_string) p kvs ''url'')
          (z_and (z_field (z_enum [(''analyze_image'', analyze_image),
                                     (''summarize_text'', summarize_text),
                                     (''extract_html'', extract_html)]) p kvs ''action'')
            (z_and (z_field (z_optional z_string) p kvs ''prompt'')
            (z_and (z_field (z_optional_default (JStr default_model) z_string) p kvs ''model'')
                   (z_field (z_optional_default (JObj []) RenderOptionsSchema)
                      p kvs ''renderOptions''))))"
  let ?F = "\<lambda>(u, a, pr, m, r).
                   \<lparr>url = u, action = a, prompt = pr, model = m, renderOptions = r\<rparr>"
  have "z_map ?F ?A = ([], Some d)"
    using assms unfolding RequestObject_def by (simp only: option.case json.case)
  then obtain x where x: "?A = ([], Some x)" and d: "d = ?F x"
    unfolding z_map_valid by blast
  obtain u a pr m r where xe: "x = (u, a, pr, m, r)" by (cases x) auto
  have d': "url d = u" "action d = a" "prompt d = pr" "model d = m" "renderOptions d = r"
    by (simp_all add: d xe)
  note parts = x [unfolded z_and_valid xe fst_conv snd_conv]
  show "z_field (z_check v (Custom ''A valid URL is required.'') z_string) p kvs ''url''
           = ([], Some (url d))"
    using parts d' by blast
  show "z_field (z_enum [(''analyze_image'', analyze_image),
                          (''summarize_text'', summarize_text),
                          (''extract_html'', extract_html)]) p kvs ''action'' = ([], Some (action d))"
    using parts d' by blast
  show "z_field (z_optional z_string) p kvs ''prompt'' = ([], Some (prompt d))"
    using parts d' by blast
  show "z_field (z_optional_default (JStr default_model) z_string) p kvs ''model''
           = ([], Some (model d))"
    using parts d' by blast
  show "z_field (z_optional_default (JObj []) RenderOptionsSchema) p kvs ''renderOptions''
           = ([], Some (renderOptions d))"
    using parts d' by blast
qed


subsection \<open>Shape of a run of the handler\<close>

lemma launchAndNavigate_no_inference: "models_invoked (snd (launchAndNavigate env u opts)) = []"
  by (simp add: launchAndNavigate_def await_def call_def ret_def
      split: sum.splits option.splits prod.splits)

lemma launchAndNavigate_acquires:
  "acquired (snd (launchAndNavigate env u opts)) = 1 \<and> released (snd (launchAndNavigate env u opts)) = 0"
  by (simp add: launchAndNavigate_def await_def call_def ret_def acquired_def released_def
      split: sum.splits option.splits prod.splits)

lemma fetch_valid:
  assumes "request_method req = ''POST''" "json_body req = Inr b"
    "safeParse (RequestSchema (valid_url env)) b = Inr d"
  shows "fetch req env =
    (case route env d of
       (Inl e, t) \<Rightarrow>
         (\<lparr>status = 500,
           body = Failure \<lparr>message = ''An internal server error occurred: '' @ errorMessage e,
                           details = None\<rparr>\<rparr>, RequestJson # t @ [ConsoleError])
     | (Inr dat, t) \<Rightarrow>
         (case browser_close env of
            Inl e \<Rightarrow>
              (\<lparr>status = 500,
                body = Failure \<lparr>message = ''An internal server error occurred: '' @ errorMessage e,
                           details = None\<rparr>\<rparr>, RequestJson # t @ [Close, ConsoleError])
          | Inr u \<Rightarrow>
              (\<lparr>status = 200,
                body = Success dat
                        \<lparr>meta_url = url d, meta_action = action d,
                         modelUsed = or_model (data_modelUsed dat) (model d),
                         executionTimeMs = endTime env - startTime env\<rparr>\<rparr>,
               RequestJson # t @ [Close])))"
  using assms
  by (simp add: fetch_def try_block_def await_def call_def ret_def
      split: sum.splits prod.splits)

lemma route_extract_html:
  assumes "action d = extract_html"
  shows "route env d =
    (case launchAndNavigate env (url d) (renderOptions d) of
       (Inl e, t) \<Rightarrow> (Inl e, t)
     | (Inr u, t) \<Rightarrow>
         (case page_content env of
            Inl e \<Rightarrow> (Inl e, t @ [Content])
          | Inr html \<Rightarrow> (Inr (HtmlData html), t @ [Content])))"
  using assms
  by (simp add: route_def await_def call_def ret_def split: sum.splits prod.splits)

lemma route_summarize_text:
  assumes "action d = summarize_text"
  shows "route env d =
    (case launchAndNavigate env (url d) (renderOptions d) of
       (Inl e, t) \<Rightarrow> (Inl e, t)
     | (Inr u, t) \<Rightarrow>
         (case page_innerText env of
            Inl e \<Rightarrow> (Inl e, t @ [Evaluate])
          | Inr pageText \<Rightarrow>
              (case AI_run env textModel
                      (TextPrompt (summarization_scaffolding @ take 8000 pageText)) of
                 Inl e \<Rightarrow>
                   (Inl e, t @ [Evaluate,
                      AiRun textModel (TextPrompt (summarization_scaffolding @ take 8000 pageText))])
               | Inr r \<Rightarrow>
                   (Inr (SummaryData r textModel), t @ [Evaluate,
                      AiRun textModel (TextPrompt (summarization_scaffolding @ take 8000 pageText))]))))"
  using assms
  by (simp add: route_def await_def call_def ret_def Let_def split: sum.splits prod.splits)

lemma route_analyze_image:
  assumes "action d = analyze_image"
  shows "route env d =
    (case launchAndNavigate env (url d) (renderOptions d) of
       (Inl e, t) \<Rightarrow> (Inl e, t)
     | (Inr u, t) \<Rightarrow>
         (case page_screenshot env (fullPage (renderOptions d)) of
            Inl e \<Rightarrow> (Inl e, t @ [Screenshot (fullPage (renderOptions d))])
          | Inr buf \<Rightarrow>
              (case AI_run env (model d) (ImagePrompt (prompt d) buf) of
                 Inl e \<Rightarrow>
                   (Inl e, t @ [Screenshot (fullPage (renderOptions d)),
                      AiRun (model d) (ImagePrompt (prompt d) buf)])
               | Inr r \<Rightarrow>
                   (Inr (ImageData r), t @ [Screenshot (fullPage (renderOptions d)),
                      AiRun (model d) (ImagePrompt (prompt d) buf)]))))"
  using assms
  by (simp add: route_def await_def call_def ret_def Let_def split: sum.splits prod.splits)

lemma inference_calls_append: "inference_calls (a @ b) = inference_calls a @ inference_calls b"
  by (simp add: inference_calls_def)

lemma launchAndNavigate_no_calls: "inference_calls (snd (launchAndNavigate env u opts)) = []"
  by (simp add: launchAndNavigate_def await_def call_def ret_def inference_calls_def
      split: sum.splits option.splits prod.splits)

lemma example_navigation:
  "launchAndNavigate example_env u \<lparr>viewport = None, fullPage = False, waitForSelector = None\<rparr>
     = (Inr (), [Launch, NewPage, Goto u])"
  by (simp add: launchAndNavigate_def example_env_def truthy_def await_def call_def ret_def)

lemma example_valid_summarize:
  "safeParse (RequestSchema (valid_url example_env))
     (example_body [(''action'', JStr ''summarize_text''), (''model'', JStr ''my-model'')])
   = Inr (example_data summarize_text None ''my-model'')"
  by (simp add: safeParse_def RequestSchema_def RequestObject_def RenderOptionsSchema_def
      z_map_def z_and_def z_field_def z_check_def z_string_def z_enum_def z_optional_def
      z_optional_default_def z_boolean_def prompt_refinement_def example_env_def example_body_def
      example_data_def)

subsection \<open>Which model a request runs\<close>

text \<open>
  C10. For every valid request with action \<open>summarize_text\<close>, every inference call the
  handler makes names the fixed text model \<open>@cf/meta/llama-2-7b-chat-int8\<close>, whatever
  model the caller supplied, and a success response reports that model as
  \<open>metadata.modelUsed\<close>.
\<close>

theorem summarize_text_fixed_model:
  assumes "request_method req = ''POST''" and "json_body req = Inr b"
    and "safeParse (RequestSchema (valid_url env)) b = Inr d"
    and "action d = summarize_text"
  shows "set (models_invoked (snd (fetch req env))) \<subseteq> {''@cf/meta/llama-2-7b-chat-int8''}
       \<and> (\<forall>dat m. body (fst (fetch req env)) = Success dat m
             \<longrightarrow> modelUsed m = ''@cf/meta/llama-2-7b-chat-int8'')"
proof -
  obtain r t where nav: "launchAndNavigate env (url d) (renderOptions d) = (r, t)"
    by (cases "launchAndNavigate env (url d) (renderOptions d)")
  have t: "models_invoked t = []"
    using launchAndNavigate_no_inference [of env "url d" "renderOptions d"] nav by simp
  show ?thesis
    unfolding fetch_valid [OF assms(1-3)] route_summarize_text [OF assms(4)] nav
    by (simp add: t models_invoked_append textModel_def or_model_def truthy_def
        split: sum.splits)
qed

text \<open>
  A request that supplies \<open>my-model\<close> is still run on, and reported with, the fixed model.
\<close>

theorem summarize_text_fixed_model_witness:
  "models_invoked (snd (fetch (example_request [(''action'', JStr ''summarize_text''),
       (''model'', JStr ''my-model'')]) example_env)) = [''@cf/meta/llama-2-7b-chat-int8'']
   \<and> body (fst (fetch (example_request [(''action'', JStr ''summarize_text''),
       (''model'', JStr ''my-model'')]) example_env))
     = Success (SummaryData ''A placeholder page.'' ''@cf/meta/llama-2-7b-chat-int8'')
         \<lparr>meta_url = ''https://example.com'', meta_action = summarize_text,
          modelUsed = ''@cf/meta/llama-2-7b-chat-int8'', executionTimeMs = 250\<rparr>"
proof -
  let ?req = "example_request [(''action'', JStr ''summarize_text''), (''model'', JStr ''my-model'')]"
  have m: "request_method ?req = ''POST''" by (simp add: example_request_def)
  have b: "json_body ?req = Inr (example_body [(''action'', JStr ''summarize_text''),
       (''model'', JStr ''my-model'')])" by (simp add: example_request_def)
  have a: "action (example_data summarize_text None ''my-model'') = summarize_text"
    by (simp add: example_data_def)
  note inst = summarize_text_fixed_model [OF m b example_valid_summarize a]
  have run: "fetch ?req example_env =
    (\<lparr>status = 200, body = Success (SummaryData ''A placeholder page.'' textModel)
         \<lparr>meta_url = ''https://example.com'', meta_action = summarize_text,
          modelUsed = textModel, executionTimeMs = 250\<rparr>\<rparr>,
     [RequestJson, Launch, NewPage, Goto ''https://example.com'', Evaluate,
      AiRun textModel (TextPrompt (summarization_scaffolding @ ''Example Domain'')), Close])"
    unfolding fetch_valid [OF m b example_valid_summarize] route_summarize_text [OF a]
    by (simp add: example_data_def example_navigation)
       (simp add: example_data_def example_env_def or_model_def truthy_def textModel_def)
  from inst show ?thesis
    by (simp add: run textModel_def)
qed

lemma valid_model:
  assumes "safeParse (RequestSchema v) (JObj kvs) = Inr d"
  shows "(map_of kvs ''model'' = None \<and> model d = default_model)
         \<or> map_of kvs ''model'' = Some (JStr (model d))"
proof -
  from assms have "RequestObject v [] (Some (JObj kvs)) = ([], Some d)"
    by (simp add: safeParse_Inr RequestSchema_valid)
  from RequestObject_fields(4) [OF this] show ?thesis
    by (simp add: z_field_def model_field_valid)
qed

lemma example_valid_extract:
  "safeParse (RequestSchema (valid_url example_env))
     (example_body [(''action'', JStr ''extract_html'')])
   = Inr (example_data extract_html None ''@cf/llava-1.5-7b-hf'')"
  by (simp add: safeParse_def RequestSchema_def RequestObject_def RenderOptionsSchema_def
      z_map_def z_and_def z_field_def z_check_def z_string_def z_enum_def z_optional_def
      z_optional_default_def z_boolean_def prompt_refinement_def example_env_def example_body_def
      example_data_def default_model_def)

text \<open>
  C7. For every valid request with action \<open>extract_html\<close> no inference call is made on
  any path; when the page loads, its markup is read and the session closes, the response
  data is that markup, whole, and \<open>metadata.modelUsed\<close> is the model of the request: the
  one the caller supplied, or the schema's default when the body has no \<open>model\<close>.
\<close>

theorem extract_html_returns_markup:
  assumes "request_method req = ''POST''" and "json_body req = Inr (JObj kvs)"
    and "safeParse (RequestSchema (valid_url env)) (JObj kvs) = Inr d"
    and "action d = extract_html"
  shows "models_invoked (snd (fetch req env)) = []
       \<and> (fst (launchAndNavigate env (url d) (renderOptions d)) = Inr ()
            \<longrightarrow> page_content env = Inr html \<longrightarrow> browser_close env = Inr ()
            \<longrightarrow> fetch req env =
                (\<lparr>status = 200,
                  body = Success (HtmlData html)
                           \<lparr>meta_url = url d, meta_action = extract_html, modelUsed = model d,
                            executionTimeMs = endTime env - startTime env\<rparr>\<rparr>,
                 RequestJson # snd (launchAndNavigate env (url d) (renderOptions d))
                   @ [Content, Close]))
       \<and> (case map_of kvs ''model'' of
             None \<Rightarrow> model d = ''@cf/llava-1.5-7b-hf''
           | Some supplied \<Rightarrow> supplied = JStr (model d))"
proof -
  obtain r t where nav: "launchAndNavigate env (url d) (renderOptions d) = (r, t)"
    by (cases "launchAndNavigate env (url d) (renderOptions d)")
  have t: "models_invoked t = []"
    using launchAndNavigate_no_inference [of env "url d" "renderOptions d"] nav by simp
  have calls: "models_invoked (snd (fetch req env)) = []"
    unfolding fetch_valid [OF assms(1-3)] route_extract_html [OF assms(4)] nav
    by (simp add: t models_invoked_append split: sum.splits)
  have run: "fst (launchAndNavigate env (url d) (renderOptions d)) = Inr ()
            \<longrightarrow> page_content env = Inr html \<longrightarrow> browser_close env = Inr ()
            \<longrightarrow> fetch req env =
                (\<lparr>status = 200,
                  body = Success (HtmlData html)
                           \<lparr>meta_url = url d, meta_action = extract_html, modelUsed = model d,
                            executionTimeMs = endTime env - startTime env\<rparr>\<rparr>,
                 RequestJson # snd (launchAndNavigate env (url d) (renderOptions d))
                   @ [Content, Close])"
    unfolding fetch_valid [OF assms(1-3)] route_extract_html [OF assms(4)] nav
    by (simp add: or_model_def truthy_def assms(4))
  have m: "case map_of kvs ''model'' of
             None \<Rightarrow> model d = ''@cf/llava-1.5-7b-hf''
           | Some supplied \<Rightarrow> supplied = JStr (model d)"
    using valid_model [OF assms(3)] by (auto simp: default_model_def)
  from calls run m show ?thesis by blast
qed

text \<open>The request \<open>{url: "https://example.com", action: "extract_html"}\<close>.\<close>

theorem extract_html_returns_markup_witness:
  "fetch (example_request [(''action'', JStr ''extract_html'')]) example_env =
     (\<lparr>status = 200,
       body = Success (HtmlData ''<html><body>Example Domain</body></html>'')
                \<lparr>meta_url = ''https://example.com'', meta_action = extract_html,
                 modelUsed = ''@cf/llava-1.5-7b-hf'', executionTimeMs = 250\<rparr>\<rparr>,
      [RequestJson, Launch, NewPage, Goto ''https://example.com'', Content, Close])
   \<and> models_invoked (snd (fetch (example_request [(''action'', JStr ''extract_html'')])
        example_env)) = []"
proof -
  let ?req = "example_request [(''action'', JStr ''extract_html'')]"
  let ?d = "example_data extract_html None ''@cf/llava-1.5-7b-hf''"
  have m: "request_method ?req = ''POST''" by (simp add: example_request_def)
  have b: "json_body ?req = Inr (JObj [(''url'', JStr ''https://example.com''),
      (''action'', JStr ''extract_html'')])"
    by (simp add: example_request_def example_body_def)
  have v: "safeParse (RequestSchema (valid_url example_env))
      (JObj [(''url'', JStr ''https://example.com''), (''action'', JStr ''extract_html'')]) = Inr ?d"
    using example_valid_extract by (simp add: example_body_def)
  have a: "action ?d = extract_html" by (simp add: example_data_def)
  have nav: "launchAndNavigate example_env (url ?d) (renderOptions ?d)
      = (Inr (), [Launch, NewPage, Goto ''https://example.com''])"
    by (simp add: example_data_def example_navigation)
  have c: "page_content example_env = Inr ''<html><body>Example Domain</body></html>''"
    and cl: "browser_close example_env = Inr ()"
    and tm: "endTime example_env - startTime example_env = 250"
    by (simp_all add: example_env_def)
  from extract_html_returns_markup [OF m b v a, of "''<html><body>Example Domain</body></html>''"]
  show ?thesis
    by (simp add: nav c cl tm) (simp add: example_data_def)
qed

lemma example_valid_image:
  "safeParse (RequestSchema (valid_url example_env))
     (example_body [(''action'', JStr ''analyze_image''), (''prompt'', JStr ''What is shown?'')])
   = Inr (example_data analyze_image (Some ''What is shown?'') ''@cf/llava-1.5-7b-hf'')"
  by (simp add: safeParse_def RequestSchema_def RequestObject_def RenderOptionsSchema_def
      z_map_def z_and_def z_field_def z_check_def z_string_def z_enum_def z_optional_def
      z_optional_default_def z_boolean_def prompt_refinement_def example_env_def example_body_def
      example_data_def default_model_def truthy_def)

lemma example_valid_summarize_default:
  "safeParse (RequestSchema (valid_url example_env))
     (example_body [(''action'', JStr ''summarize_text'')])
   = Inr (example_data summarize_text None ''@cf/llava-1.5-7b-hf'')"
  by (simp add: safeParse_def RequestSchema_def RequestObject_def RenderOptionsSchema_def
      z_map_def z_and_def z_field_def z_check_def z_string_def z_enum_def z_optional_def
      z_optional_default_def z_boolean_def prompt_refinement_def example_env_def example_body_def
      example_data_def default_model_def truthy_def)

text \<open>
  C6. For every valid request whose body has no \<open>model\<close> member and whose page loads, the
  model the inference call is made with depends on the action: \<open>@cf/llava-1.5-7b-hf\<close> for
  \<open>analyze_image\<close>, and the different \<open>@cf/meta/llama-2-7b-chat-int8\<close> for
  \<open>summarize_text\<close>; a success response reports the same model as \<open>metadata.modelUsed\<close>
  (for \<open>extract_html\<close>, which runs no model, the schema default).
\<close>

theorem absent_model_defaults:
  assumes "request_method req = ''POST''" and "json_body req = Inr (JObj kvs)"
    and "map_of kvs ''model'' = None"
    and "safeParse (RequestSchema (valid_url env)) (JObj kvs) = Inr d"
    and "fst (launchAndNavigate env (url d) (renderOptions d)) = Inr ()"
  shows "(action d = analyze_image
            \<longrightarrow> page_screenshot env (fullPage (renderOptions d)) = Inr buf
            \<longrightarrow> models_invoked (snd (fetch req env)) = [''@cf/llava-1.5-7b-hf''])
       \<and> (action d = summarize_text
            \<longrightarrow> page_innerText env = Inr pageText
            \<longrightarrow> models_invoked (snd (fetch req env)) = [''@cf/meta/llama-2-7b-chat-int8''])
       \<and> (\<forall>dat m. body (fst (fetch req env)) = Success dat m
            \<longrightarrow> modelUsed m = (if action d = summarize_text
                               then ''@cf/meta/llama-2-7b-chat-int8''
                               else ''@cf/llava-1.5-7b-hf''))
       \<and> ''@cf/llava-1.5-7b-hf'' \<noteq> ''@cf/meta/llama-2-7b-chat-int8''"
proof -
  obtain t where nav: "launchAndNavigate env (url d) (renderOptions d) = (Inr (), t)"
    using assms(5) by (cases "launchAndNavigate env (url d) (renderOptions d)") auto
  have t: "models_invoked t = []"
    using launchAndNavigate_no_inference [of env "url d" "renderOptions d"] nav by simp
  have md: "model d = ''@cf/llava-1.5-7b-hf''"
    using valid_model [OF assms(4)] assms(3) by (simp add: default_model_def)
  have img: "action d = analyze_image
            \<longrightarrow> page_screenshot env (fullPage (renderOptions d)) = Inr buf
            \<longrightarrow> models_invoked (snd (fetch req env)) = [''@cf/llava-1.5-7b-hf'']"
  proof (intro impI)
    assume a: "action d = analyze_image"
      and s: "page_screenshot env (fullPage (renderOptions d)) = Inr buf"
    show "models_invoked (snd (fetch req env)) = [''@cf/llava-1.5-7b-hf'']"
      unfolding fetch_valid [OF assms(1,2,4)] route_analyze_image [OF a] nav
      by (simp add: s t md models_invoked_append split: sum.splits)
  qed
  have summ: "action d = summarize_text
            \<longrightarrow> page_innerText env = Inr pageText
            \<longrightarrow> models_invoked (snd (fetch req env)) = [''@cf/meta/llama-2-7b-chat-int8'']"
  proof (intro impI)
    assume a: "action d = summarize_text" and s: "page_innerText env = Inr pageText"
    show "models_invoked (snd (fetch req env)) = [''@cf/meta/llama-2-7b-chat-int8'']"
      unfolding fetch_valid [OF assms(1,2,4)] route_summarize_text [OF a] nav
      by (simp add: s t textModel_def models_invoked_append split: sum.splits)
  qed
  have used: "\<forall>dat m. body (fst (fetch req env)) = Success dat m
            \<longrightarrow> modelUsed m = (if action d = summarize_text
                               then ''@cf/meta/llama-2-7b-chat-int8''
                               else ''@cf/llava-1.5-7b-hf'')"
  proof (cases "action d")
    case analyze_image
    show ?thesis
      unfolding fetch_valid [OF assms(1,2,4)] route_analyze_image [OF analyze_image] nav
      by (simp add: analyze_image md or_model_def truthy_def split: sum.splits)
  next
    case summarize_text
    show ?thesis
      unfolding fetch_valid [OF assms(1,2,4)] route_summarize_text [OF summarize_text] nav
      by (simp add: summarize_text textModel_def or_model_def truthy_def split: sum.splits)
  next
    case extract_html
    show ?thesis
      unfolding fetch_valid [OF assms(1,2,4)] route_extract_html [OF extract_html] nav
      by (simp add: extract_html md or_model_def truthy_def split: sum.splits)
  qed
  have ne: "''@cf/llava-1.5-7b-hf'' \<noteq> ''@cf/meta/llama-2-7b-chat-int8''" by simp
  from img summ used ne show ?thesis by blast
qed

text \<open>Two requests without a \<open>model\<close> member, one per model-running action.\<close>

theorem absent_model_defaults_witness:
  "models_invoked (snd (fetch (example_request [(''action'', JStr ''analyze_image''),
       (''prompt'', JStr ''What is shown?'')]) example_env)) = [''@cf/llava-1.5-7b-hf'']
   \<and> models_invoked (snd (fetch (example_request [(''action'', JStr ''summarize_text'')])
       example_env)) = [''@cf/meta/llama-2-7b-chat-int8'']"
proof -
  let ?img = "[(''action'', JStr ''analyze_image''), (''prompt'', JStr ''What is shown?'')]"
  let ?sum = "[(''action'', JStr ''summarize_text'')]"
  let ?di = "example_data analyze_image (Some ''What is shown?'') ''@cf/llava-1.5-7b-hf''"
  let ?dt = "example_data summarize_text None ''@cf/llava-1.5-7b-hf''"
  have m: "request_method (example_request x) = ''POST''"
    and b: "json_body (example_request x) = Inr (JObj ((''url'', JStr ''https://example.com'') # x))"
    for x by (simp_all add: example_request_def example_body_def)
  have absent: "map_of ((''url'', JStr ''https://example.com'') # ?img) ''model'' = None"
    "map_of ((''url'', JStr ''https://example.com'') # ?sum) ''model'' = None"
    by simp_all
  have nav: "fst (launchAndNavigate example_env (url ?di) (renderOptions ?di)) = Inr ()"
    "fst (launchAndNavigate example_env (url ?dt) (renderOptions ?dt)) = Inr ()"
    by (simp_all add: example_data_def example_navigation)
  have shot: "page_screenshot example_env (fullPage (renderOptions ?di)) = Inr [137, 80, 78, 71]"
    and inner: "page_innerText example_env = Inr ''Example Domain''"
    by (simp_all add: example_env_def)
  have ai: "action ?di = analyze_image" and at: "action ?dt = summarize_text"
    by (simp_all add: example_data_def)
  from absent_model_defaults [OF m b absent(1)
      example_valid_image [unfolded example_body_def] nav(1), of "[137, 80, 78, 71]"]
    absent_model_defaults [OF m b absent(2)
      example_valid_summarize_default [unfolded example_body_def] nav(2),
      where pageText = "''Example Domain''"]
  show ?thesis
    using shot inner ai at by blast
qed

subsection \<open>Release of the browser session\<close>

text \<open>
  C1. The claim is that every valid request releases the one session it acquires, also
  when extraction or inference raises. The handler closes the browser only after the
  \<open>switch\<close>, inside the \<open>try\<close>: for the valid request
  \<open>{url: "https://example.com", action: "summarize_text"}\<close> whose inference call rejects,
  one session is acquired, the error response is produced, and no session is released.
\<close>

theorem session_left_open_when_inference_raises:
  "fetch (example_request [(''action'', JStr ''summarize_text'')])
     (example_env\<lparr>AI_run := (\<lambda>m i. Inl (Error ''model unavailable''))\<rparr>) =
     (\<lparr>status = 500,
       body = Failure \<lparr>message = ''An internal server error occurred: model unavailable'',
                       details = None\<rparr>\<rparr>,
      [RequestJson, Launch, NewPage, Goto ''https://example.com'', Evaluate,
       AiRun ''@cf/meta/llama-2-7b-chat-int8''
         (TextPrompt (summarization_scaffolding @ ''Example Domain'')),
       ConsoleError])
   \<and> acquired (snd (fetch (example_request [(''action'', JStr ''summarize_text'')])
        (example_env\<lparr>AI_run := (\<lambda>m i. Inl (Error ''model unavailable''))\<rparr>))) = 1
   \<and> released (snd (fetch (example_request [(''action'', JStr ''summarize_text'')])
        (example_env\<lparr>AI_run := (\<lambda>m i. Inl (Error ''model unavailable''))\<rparr>))) = 0"
proof -
  let ?req = "example_request [(''action'', JStr ''summarize_text'')]"
  let ?env = "example_env\<lparr>AI_run := (\<lambda>m i. Inl (Error ''model unavailable''))\<rparr>"
  let ?d = "example_data summarize_text None ''@cf/llava-1.5-7b-hf''"
  have m: "request_method ?req = ''POST''"
    and b: "json_body ?req = Inr (example_body [(''action'', JStr ''summarize_text'')])"
    by (simp_all add: example_request_def)
  have v: "safeParse (RequestSchema (valid_url ?env))
      (example_body [(''action'', JStr ''summarize_text'')]) = Inr ?d"
    using example_valid_summarize_default by simp
  have a: "action ?d = summarize_text" by (simp add: example_data_def)
  have nav: "launchAndNavigate ?env (url ?d) (renderOptions ?d)
      = (Inr (), [Launch, NewPage, Goto ''https://example.com''])"
    by (simp add: launchAndNavigate_def example_env_def example_data_def truthy_def
        await_def call_def ret_def)
  have run: "fetch ?req ?env =
     (\<lparr>status = 500,
       body = Failure \<lparr>message = ''An internal server error occurred: model unavailable'',
                       details = None\<rparr>\<rparr>,
      [RequestJson, Launch, NewPage, Goto ''https://example.com'', Evaluate,
       AiRun ''@cf/meta/llama-2-7b-chat-int8''
         (TextPrompt (summarization_scaffolding @ ''Example Domain'')),
       ConsoleError])"
    unfolding fetch_valid [OF m b v] route_summarize_text [OF a] nav
    by (simp add: example_env_def errorMessage_def textModel_def)
  show ?thesis
    unfolding run by (simp add: acquired_def released_def)
qed

subsection \<open>Truncation of the page text\<close>

lemma launchAndNavigate_innerText:
  "launchAndNavigate (env\<lparr>page_innerText := x\<rparr>) u opts = launchAndNavigate env u opts"
  by (simp add: launchAndNavigate_def cong: option.case_cong if_cong)

lemma summarize_text_reads_prefix_only:
  assumes "request_method req = ''POST''" and "json_body req = Inr b"
    and "safeParse (RequestSchema (valid_url env)) b = Inr d"
    and "action d = summarize_text"
    and "take 8000 text1 = take 8000 text2"
  shows "fetch req (env\<lparr>page_innerText := Inr text1\<rparr>)
       = fetch req (env\<lparr>page_innerText := Inr text2\<rparr>)"
proof -
  have v: "safeParse (RequestSchema (valid_url (env\<lparr>page_innerText := x\<rparr>))) b = Inr d" for x
    using assms(3) by simp
  show ?thesis
    unfolding fetch_valid [OF assms(1,2) v] route_summarize_text [OF assms(4)]
      launchAndNavigate_innerText
    by (simp add: assms(5) cong: prod.case_cong sum.case_cong)
qed

text \<open>
  C5. The claim is that a truncated input is marked as truncated. In \<open>summarize_text\<close>
  nothing marks it: a page of 8001 characters and the page of its first 8000 characters
  give the same calls, the same prompt and the same response.
\<close>

theorem truncated_summary_input_is_unmarked:
  "fetch (example_request [(''action'', JStr ''summarize_text'')])
     (example_env\<lparr>page_innerText := Inr (replicate 8001 CHR ''a'')\<rparr>)
   = fetch (example_request [(''action'', JStr ''summarize_text'')])
     (example_env\<lparr>page_innerText := Inr (replicate 8000 CHR ''a'')\<rparr>)"
proof -
  let ?req = "example_request [(''action'', JStr ''summarize_text'')]"
  let ?d = "example_data summarize_text None ''@cf/llava-1.5-7b-hf''"
  have m: "request_method ?req = ''POST''"
    and b: "json_body ?req = Inr (example_body [(''action'', JStr ''summarize_text'')])"
    by (simp_all add: example_request_def)
  have a: "action ?d = summarize_text" by (simp add: example_data_def)
  have cut: "take 8000 (replicate 8001 CHR ''a'') = take 8000 (replicate 8000 CHR ''a'')"
    by simp
  show ?thesis
    by (rule summarize_text_reads_prefix_only [OF m b example_valid_summarize_default a cut])
qed

subsection \<open>Issues and their paths\<close>

lemma reporting_z_string: "reporting z_string"
  by (auto simp: reporting_def reported_def z_string_def split: option.splits json.splits)

lemma reporting_z_number: "reporting z_number"
  by (auto simp: reporting_def reported_def z_number_def split: option.splits json.splits)

lemma reporting_z_boolean: "reporting z_boolean"
  by (auto simp: reporting_def reported_def z_boolean_def split: option.splits json.splits)

lemma reporting_z_enum: "reporting (z_enum vs)"
  by (auto simp: reporting_def reported_def z_enum_def split: option.splits json.splits)

lemma reporting_z_check: "reporting s \<Longrightarrow> reporting (z_check chk m s)"
  unfolding reporting_def reported_def z_check_def
  by (auto split: prod.splits option.splits if_splits) (metis fst_conv snd_conv)+

lemma reporting_z_optional: "reporting s \<Longrightarrow> reporting (z_optional s)"
  unfolding reporting_def reported_def z_optional_def
  by (auto split: prod.splits option.splits) (metis fst_conv snd_conv)+

lemma reporting_z_optional_default: "reporting s \<Longrightarrow> reporting (z_optional_default d s)"
  unfolding reporting_def reported_def z_optional_default_def
  by (auto split: option.splits)

lemma reported_z_field: "reporting s \<Longrightarrow> reported (p @ [k]) (z_field s p kvs k)"
  by (simp add: reporting_def z_field_def)

lemma reported_z_and: "reported p a \<Longrightarrow> reported q b \<Longrightarrow>
   (snd (z_and a b) = None \<longrightarrow> fst (z_and a b) \<noteq> [])
   \<and> set (fst (z_and a b)) = set (fst a) \<union> set (fst b)"
  by (auto simp: reported_def z_and_def split: option.splits)


lemma fst_z_and: "fst (z_and a b) = fst a @ fst b"
  by (simp add: z_and_def)

lemma fst_z_map: "fst (z_map f a) = fst a"
  by (simp add: z_map_def)

lemma snd_z_and: "snd (z_and a b) = Some x \<longleftrightarrow> snd a = Some (fst x) \<and> snd b = Some (snd x)"
  by (cases x) (auto simp: z_and_def split: option.splits)

lemma snd_z_and_None: "snd (z_and a b) = None \<longleftrightarrow> snd a = None \<or> snd b = None"
  by (auto simp: z_and_def split: option.splits)

lemma snd_z_map: "snd (z_map f a) = map_option f (snd a)"
  by (simp add: z_map_def)

lemma reported_weaken: "reported (p @ [k]) a \<Longrightarrow> reported p a"
  by (auto simp: reported_def dest: append_prefixD)

lemma reported_field: "reporting s \<Longrightarrow> reported p (z_field s p kvs k)"
  by (rule reported_weaken [OF reported_z_field])

lemma reported_z_and_same: "reported p a \<Longrightarrow> reported p b \<Longrightarrow> reported p (z_and a b)"
  by (auto simp: reported_def z_and_def split: option.splits)

lemma reported_z_map: "reported p a \<Longrightarrow> reported p (z_map f a)"
  by (simp add: reported_def z_map_def)

lemma reported_invalid_type: "reported p ([(p, Invalid_type)], None)"
  by (simp add: reported_def)

lemma reporting_z_int_positive: "reporting z_int_positive"
  unfolding z_int_positive_def by (intro reporting_z_check reporting_z_number)

lemma reporting_ViewportSchema: "reporting ViewportSchema"
  unfolding reporting_def
proof (intro allI)
  fix p inp
  have obj: "reported p (z_map f (z_and (z_field z_int_positive p kvs ''width'')
                   (z_field z_int_positive p kvs ''height'')))" for f :: "rat \<times> rat \<Rightarrow> viewport" and kvs
    by (intro reported_z_map reported_z_and_same reported_field
        reporting_z_int_positive)
  show "reported p (ViewportSchema p inp)"
  proof (cases inp)
    case None
    then show ?thesis by (simp add: ViewportSchema_def reported_invalid_type)
  next
    case (Some j)
    then show ?thesis
      by (cases j) (simp_all only: ViewportSchema_def option.case json.case obj reported_invalid_type)
  qed
qed

lemma reporting_RenderOptionsSchema: "reporting RenderOptionsSchema"
  unfolding reporting_def
proof (intro allI)
  fix p inp
  have obj: "reported p (z_map f
            (z_and (z_field (z_optional ViewportSchema) p kvs ''viewport'')
            (z_and (z_field (z_optional_default (JBool False) z_boolean) p kvs ''fullPage'')
                   (z_field (z_optional z_string) p kvs ''waitForSelector''))))"
    for f :: "viewport option \<times> bool \<times> string option \<Rightarrow> render_options" and kvs
    by (intro reported_z_map reported_z_and_same reported_field
        reporting_z_optional reporting_z_optional_default reporting_ViewportSchema
        reporting_z_boolean reporting_z_string)
  show "reported p (RenderOptionsSchema p inp)"
  proof (cases inp)
    case None
    then show ?thesis by (simp add: RenderOptionsSchema_def reported_invalid_type)
  next
    case (Some j)
    then show ?thesis
      by (cases j) (simp_all only: RenderOptionsSchema_def option.case json.case obj reported_invalid_type)
  qed
qed


lemma RequestObject_JObj:
  "RequestObject v p (Some (JObj kvs)) =
     z_map (\<lambda>(u, a, pr, m, r).
                   \<lparr>url = u, action = a, prompt = pr, model = m, renderOptions = r\<rparr>)
            (z_and (z_field (z_check v (Custom ''A valid URL is required.'') z_string)
                      p kvs ''url'')
            (z_and (z_field (z_enum [(''analyze_image'', analyze_image),
                                     (''summarize_text'', summarize_text),
                                     (''extract_html'', extract_html)]) p kvs ''action'')
            (z_and (z_field (z_optional z_string) p kvs ''prompt'')
            (z_and (z_field (z_optional_default (JStr default_model) z_string) p kvs ''model'')
                   (z_field (z_optional_default (JObj []) RenderOptionsSchema)
                      p kvs ''renderOptions'')))))"
  by (simp only: RequestObject_def option.case json.case)

lemma reporting_RequestObject: "reporting (RequestObject v)"
  unfolding reporting_def
proof (intro allI)
  fix p inp
  show "reported p (RequestObject v p inp)"
  proof (cases inp)
    case None
    then show ?thesis by (simp add: RequestObject_def reported_invalid_type)
  next
    case (Some j)
    have obj: "reported p (RequestObject v p (Some (JObj kvs)))" for kvs
      unfolding RequestObject_JObj
      by (intro reported_z_map reported_z_and_same reported_field
        reporting_z_optional reporting_z_optional_default reporting_RenderOptionsSchema
        reporting_z_check reporting_z_enum reporting_z_string)
    from Some show ?thesis
      by (cases j) (simp_all only: obj, simp_all only: RequestObject_def option.case json.case reported_invalid_type)
  qed
qed

lemma reporting_RequestSchema: "reporting (RequestSchema v)"
  unfolding reporting_def
proof (intro allI)
  fix p inp
  obtain iss r where o: "RequestObject v p inp = (iss, r)"
    by (cases "RequestObject v p inp")
  have "reported p (iss, r)"
    using reporting_RequestObject [of v] o by (metis reporting_def)
  then show "reported p (RequestSchema v p inp)"
    unfolding RequestSchema_def o
    by (cases r) (auto simp: reported_def)
qed

lemma invalid_has_issues:
  assumes "safeParse (RequestSchema v) b = Inl issues"
  shows "issues \<noteq> []"
proof
  assume "issues = []"
  with assms have "fst (RequestSchema v [] (Some b)) = []" "snd (RequestSchema v [] (Some b)) = None"
    by (simp_all add: safeParse_Inl)
  moreover have "reported [] (RequestSchema v [] (Some b))"
    using reporting_RequestSchema [of v] by (simp add: reporting_def)
  ultimately show False by (simp add: reported_def)
qed

lemma field_issue_head:
  assumes "reporting s" and "i \<in> set (fst (z_field s [] kvs k))"
  shows "\<exists>ks. fst i = k # ks"
proof -
  have "reported ([] @ [k]) (z_field s [] kvs k)"
    by (rule reported_z_field [OF assms(1)])
  with assms(2) have "prefix [k] (fst i)" by (simp add: reported_def)
  then show ?thesis by (auto simp: prefix_def)
qed

lemma add_field_error_map_fst:
  "set (map fst (add_field_error k m xs)) = insert k (set (map fst xs))"
  by (induction k m xs rule: add_field_error.induct) auto

lemma add_field_error_keys: "fst ` set (add_field_error k m xs) = insert k (fst ` set xs)"
  using add_field_error_map_fst [of k m xs] by simp

lemma flatten_into_keys:
  "fst ` set (fieldErrors (flatten_into is acc))
     = fst ` set (fieldErrors acc) \<union> {k. \<exists>ks m. (k # ks, m) \<in> set is}"
  by (induction "is" acc rule: flatten_into.induct) (auto simp: add_field_error_keys)

lemma flatten_keys:
  "fst ` set (fieldErrors (flatten is)) = {k. \<exists>ks m. (k # ks, m) \<in> set is}"
  by (simp add: flatten_def flatten_into_keys)

subsection \<open>Error envelopes\<close>

lemma object_issue_paths:
  assumes "i \<in> set (fst (RequestSchema v [] (Some (JObj kvs))))"
  shows "fst i \<noteq> []"
proof -
  let ?o = "RequestObject v [] (Some (JObj kvs))"
  have fields: "j \<in> set (fst ?o) \<Longrightarrow> fst j \<noteq> []" for j
    unfolding RequestObject_JObj fst_z_map fst_z_and set_append Un_iff
    by (auto dest!: field_issue_head [rotated]
        intro: reporting_z_optional reporting_z_optional_default reporting_RenderOptionsSchema
        reporting_z_check reporting_z_enum reporting_z_string)
  obtain iss r where o: "?o = (iss, r)" by (cases ?o)
  have "i \<in> set iss \<or> fst i = [''prompt'']"
    using assms unfolding RequestSchema_def o
    by (cases r) (auto split: if_splits)
  then show ?thesis
  proof
    assume "i \<in> set iss"
    then show ?thesis using fields [of i] by (simp add: o)
  next
    assume "fst i = [''prompt'']"
    then show ?thesis by simp
  qed
qed

lemma example_navigation_refused:
  "launchAndNavigate (example_env\<lparr>page_goto := (\<lambda>u. Inl (Error ''net::ERR_NAME_NOT_RESOLVED''))\<rparr>)
     u \<lparr>viewport = None, fullPage = False, waitForSelector = None\<rparr>
   = (Inl (Error ''net::ERR_NAME_NOT_RESOLVED''), [Launch, NewPage, Goto u])"
  by (simp add: launchAndNavigate_def example_env_def truthy_def await_def call_def ret_def)

lemma example_invalid_empty:
  "safeParse (RequestSchema (valid_url example_env)) (JObj [])
     = Inl [([''url''], Invalid_type), ([''action''], Invalid_type)]"
  by (simp add: safeParse_def RequestSchema_def RequestObject_def RenderOptionsSchema_def
      z_map_def z_and_def z_field_def z_check_def z_string_def z_enum_def z_optional_def
      z_optional_default_def z_boolean_def prompt_refinement_def example_env_def)

text \<open>
  C8 (as amended). For every request whose body parses as JSON but fails the schema, the
  handler answers 400 with \<open>{success: false, error: {message, details}}\<close>, where the
  details are the flattened issues, never empty, and hold a field-level entry whenever
  the body is an object. Every error raised inside the handler answers 500 with
  \<open>{success: false, error: {message}}\<close> and is logged: a body that is not parsable JSON,
  a rejection while navigating, extracting or inferring, and a rejection of the close.
\<close>

theorem error_envelopes:
  assumes "request_method req = ''POST''"
  shows "(json_body req = Inr b
            \<longrightarrow> safeParse (RequestSchema (valid_url env)) b = Inl issues
            \<longrightarrow> fetch req env =
                  (\<lparr>status = 400,
                    body = Failure \<lparr>message = ''Invalid request body.'',
                                    details = Some (flatten issues)\<rparr>\<rparr>, [RequestJson])
                \<and> issues \<noteq> []
                \<and> ((\<exists>kvs. b = JObj kvs) \<longrightarrow> fieldErrors (flatten issues) \<noteq> []))
       \<and> (json_body req = Inl e
            \<longrightarrow> fetch req env =
                  (\<lparr>status = 500,
                    body = Failure
                      \<lparr>message = ''An internal server error occurred: '' @ errorMessage e,
                       details = None\<rparr>\<rparr>, [RequestJson, ConsoleError]))
       \<and> (json_body req = Inr b
            \<longrightarrow> safeParse (RequestSchema (valid_url env)) b = Inr d
            \<longrightarrow> route env d = (Inl e, t)
            \<longrightarrow> fetch req env =
                  (\<lparr>status = 500,
                    body = Failure
                      \<lparr>message = ''An internal server error occurred: '' @ errorMessage e,
                       details = None\<rparr>\<rparr>, RequestJson # t @ [ConsoleError]))
       \<and> (json_body req = Inr b
            \<longrightarrow> safeParse (RequestSchema (valid_url env)) b = Inr d
            \<longrightarrow> route env d = (Inr dat, t)
            \<longrightarrow> browser_close env = Inl e
            \<longrightarrow> fetch req env =
                  (\<lparr>status = 500,
                    body = Failure
                      \<lparr>message = ''An internal server error occurred: '' @ errorMessage e,
                       details = None\<rparr>\<rparr>, RequestJson # t @ [Close, ConsoleError]))"
proof (intro conjI impI)
  assume b: "json_body req = Inr b"
    and v: "safeParse (RequestSchema (valid_url env)) b = Inl issues"
  show "fetch req env =
                  (\<lparr>status = 400,
                    body = Failure \<lparr>message = ''Invalid request body.'',
                                    details = Some (flatten issues)\<rparr>\<rparr>, [RequestJson])"
    using assms b v by (simp add: fetch_def try_block_def ret_def)
  show ne: "issues \<noteq> []" by (rule invalid_has_issues [OF v])
  assume "\<exists>kvs. b = JObj kvs"
  then obtain kvs where kvs: "b = JObj kvs" by blast
  from ne obtain i where i: "i \<in> set issues" by (cases issues) auto
  from v have "fst (RequestSchema (valid_url env) [] (Some (JObj kvs))) = issues"
    by (simp add: safeParse_Inl kvs)
  with i have "fst i \<noteq> []" using object_issue_paths by blast
  then obtain k ks m where "i = (k # ks, m)" by (cases i; cases "fst i") auto
  with i have "k \<in> fst ` set (fieldErrors (flatten issues))"
    unfolding flatten_keys by blast
  then show "fieldErrors (flatten issues) \<noteq> []" by auto
next
  assume "json_body req = Inl e"
  then show "fetch req env =
                  (\<lparr>status = 500,
                    body = Failure
                      \<lparr>message = ''An internal server error occurred: '' @ errorMessage e,
                       details = None\<rparr>\<rparr>, [RequestJson, ConsoleError])"
    using assms by (simp add: fetch_def try_block_def ret_def)
next
  assume b: "json_body req = Inr b"
    and v: "safeParse (RequestSchema (valid_url env)) b = Inr d"
    and r: "route env d = (Inl e, t)"
  show "fetch req env =
                  (\<lparr>status = 500,
                    body = Failure
                      \<lparr>message = ''An internal server error occurred: '' @ errorMessage e,
                       details = None\<rparr>\<rparr>, RequestJson # t @ [ConsoleError])"
    unfolding fetch_valid [OF assms b v] r by simp
next
  assume b: "json_body req = Inr b"
    and v: "safeParse (RequestSchema (valid_url env)) b = Inr d"
    and r: "route env d = (Inr dat, t)" and c: "browser_close env = Inl e"
  show "fetch req env =
                  (\<lparr>status = 500,
                    body = Failure
                      \<lparr>message = ''An internal server error occurred: '' @ errorMessage e,
                       details = None\<rparr>\<rparr>, RequestJson # t @ [Close, ConsoleError])"
    unfolding fetch_valid [OF assms b v] r by (simp add: c)
qed


text \<open>One request for each of the four cases.\<close>

theorem error_envelopes_witness:
  "fetch \<lparr>request_method = ''POST'', json_body = Inr (JObj [])\<rparr> example_env =
     (\<lparr>status = 400,
       body = Failure \<lparr>message = ''Invalid request body.'',
                       details = Some \<lparr>formErrors = [],
                                       fieldErrors = [(''url'', [Invalid_type]),
                                                      (''action'', [Invalid_type])]\<rparr>\<rparr>\<rparr>,
      [RequestJson])
   \<and> fetch \<lparr>request_method = ''POST'', json_body = Inl (Error ''Unexpected end of JSON input'')\<rparr>
       example_env =
     (\<lparr>status = 500,
       body = Failure
                \<lparr>message = ''An internal server error occurred: Unexpected end of JSON input'',
                 details = None\<rparr>\<rparr>,
      [RequestJson, ConsoleError])
   \<and> fetch (example_request [(''action'', JStr ''extract_html'')])
       (example_env\<lparr>page_goto := (\<lambda>u. Inl (Error ''net::ERR_NAME_NOT_RESOLVED''))\<rparr>) =
     (\<lparr>status = 500,
       body = Failure
                \<lparr>message = ''An internal server error occurred: net::ERR_NAME_NOT_RESOLVED'',
                 details = None\<rparr>\<rparr>,
      [RequestJson, Launch, NewPage, Goto ''https://example.com'', ConsoleError])
   \<and> fetch (example_request [(''action'', JStr ''extract_html'')])
       (example_env\<lparr>browser_close := Inl NonError\<rparr>) =
     (\<lparr>status = 500,
       body = Failure
                \<lparr>message = ''An internal server error occurred: An unknown error occurred.'',
                 details = None\<rparr>\<rparr>,
      [RequestJson, Launch, NewPage, Goto ''https://example.com'', Content, Close, ConsoleError])"
proof -
  let ?d = "example_data extract_html None ''@cf/llava-1.5-7b-hf''"
  let ?req = "example_request [(''action'', JStr ''extract_html'')]"
  let ?goto = "example_env\<lparr>page_goto := (\<lambda>u. Inl (Error ''net::ERR_NAME_NOT_RESOLVED''))\<rparr>"
  let ?close = "example_env\<lparr>browser_close := Inl NonError\<rparr>"
  have m: "request_method ?req = ''POST''"
    and b: "json_body ?req = Inr (example_body [(''action'', JStr ''extract_html'')])"
    by (simp_all add: example_request_def)
  have a: "action ?d = extract_html" by (simp add: example_data_def)
  have v1: "safeParse (RequestSchema (valid_url ?goto))
      (example_body [(''action'', JStr ''extract_html'')]) = Inr ?d"
    and v2: "safeParse (RequestSchema (valid_url ?close))
      (example_body [(''action'', JStr ''extract_html'')]) = Inr ?d"
    using example_valid_extract by simp_all
  have r1: "route ?goto ?d
      = (Inl (Error ''net::ERR_NAME_NOT_RESOLVED''), [Launch, NewPage, Goto ''https://example.com''])"
    unfolding route_extract_html [OF a]
    by (simp add: example_data_def example_navigation_refused)
  have nav2: "launchAndNavigate ?close (url ?d) (renderOptions ?d)
      = (Inr (), [Launch, NewPage, Goto ''https://example.com''])"
    by (simp add: launchAndNavigate_def example_env_def example_data_def truthy_def
        await_def call_def ret_def)
  have r2: "route ?close ?d
      = (Inr (HtmlData ''<html><body>Example Domain</body></html>''),
         [Launch, NewPage, Goto ''https://example.com'', Content])"
    unfolding route_extract_html [OF a] nav2
    by (simp add: example_env_def)
  have c2: "browser_close ?close = Inl NonError" by simp
  have p1: "request_method \<lparr>request_method = ''POST'', json_body = x\<rparr> = ''POST''"
    and p2: "json_body \<lparr>request_method = ''POST'', json_body = x\<rparr> = x" for x
    by simp_all
  have fl: "flatten [([''url''], Invalid_type), ([''action''], Invalid_type)]
      = \<lparr>formErrors = [], fieldErrors = [(''url'', [Invalid_type]), (''action'', [Invalid_type])]\<rparr>"
    by (simp add: flatten_def)
  note first = error_envelopes [OF p1, THEN conjunct1, rule_format, OF p2 example_invalid_empty]
  note second = error_envelopes [OF p1, THEN conjunct2, THEN conjunct1, rule_format, OF p2]
  note third = error_envelopes [OF m, THEN conjunct2, THEN conjunct2, THEN conjunct1,
      rule_format, OF b v1 r1]
  note fourth = error_envelopes [OF m, THEN conjunct2, THEN conjunct2, THEN conjunct2,
      rule_format, OF b v2 r2 c2]
  from first second third fourth show ?thesis
    by (simp add: fl errorMessage_def)
qed

text \<open>
  C8 as stated fails for a malformed body: when \<open>request.json()\<close> rejects, the answer is
  500 without details, not 400.
\<close>

theorem unparsable_body_counterexample:
  "fetch \<lparr>request_method = ''POST'',
          json_body = Inl (Error ''Unexpected token } in JSON at position 1'')\<rparr> example_env =
     (\<lparr>status = 500,
       body = Failure
                \<lparr>message = ''An internal server error occurred: Unexpected token } in JSON at position 1'',
                 details = None\<rparr>\<rparr>,
      [RequestJson, ConsoleError])"
  by (simp add: fetch_def try_block_def errorMessage_def)

subsection \<open>A missing prompt\<close>

lemma RequestObject_value:
  assumes "snd (RequestObject v p (Some (JObj kvs))) = Some d"
  shows "snd (z_field (z_enum [(''analyze_image'', analyze_image),
                          (''summarize_text'', summarize_text),
                          (''extract_html'', extract_html)]) p kvs ''action'') = Some (action d)"
    and "snd (z_field (z_optional z_string) p kvs ''prompt'') = Some (prompt d)"
proof -
  from assms obtain x where
    x: "snd (z_and (z_field (z_check v (Custom ''A valid URL is required.'') z_string)
                      p kvs ''url'')
            (z_and (z_field (z_enum [(''analyze_image'', analyze_image),
                                     (''summarize_text'', summarize_text),
                                     (''extract_html'', extract_html)]) p kvs ''action'')
            (z_and (z_field (z_optional z_string) p kvs ''prompt'')
            (z_and (z_field (z_optional_default (JStr default_model) z_string) p kvs ''model'')
                   (z_field (z_optional_default (JObj []) RenderOptionsSchema)
                      p kvs ''renderOptions''))))) = Some x"
    and d: "d = (\<lambda>(u, a, pr, m, r).
                   \<lparr>url = u, action = a, prompt = pr, model = m, renderOptions = r\<rparr>) x"
    unfolding RequestObject_JObj snd_z_map map_option_eq_Some by blast
  obtain u a pr m r where xe: "x = (u, a, pr, m, r)" by (cases x) auto
  have d': "action d = a" "prompt d = pr"
    by (simp_all add: d xe)
  note parts = x [unfolded snd_z_and xe fst_conv snd_conv]
  show "snd (z_field (z_enum [(''analyze_image'', analyze_image),
                          (''summarize_text'', summarize_text),
                          (''extract_html'', extract_html)]) p kvs ''action'') = Some (action d)"
    using parts d' by blast
  show "snd (z_field (z_optional z_string) p kvs ''prompt'') = Some (prompt d)"
    using parts d' by blast
qed

lemma no_prompt_issue_from_fields:
  assumes "map_of kvs ''action'' = Some (JStr ''analyze_image'')" and "map_of kvs ''prompt'' = None"
  shows "(''prompt'' # ks, m) \<notin> set (fst (RequestObject v [] (Some (JObj kvs))))"
proof
  let ?i = "(''prompt'' # ks, m)"
  have act: "fst (z_field (z_enum [(''analyze_image'', analyze_image),
                          (''summarize_text'', summarize_text),
                          (''extract_html'', extract_html)]) [] kvs ''action'') = []"
    by (simp add: z_field_def z_enum_def assms(1))
  have pr: "fst (z_field (z_optional z_string) [] kvs ''prompt'') = []"
    by (simp add: z_field_def z_optional_def assms(2))
  assume "?i \<in> set (fst (RequestObject v [] (Some (JObj kvs))))"
  then consider
      "?i \<in> set (fst (z_field (z_check v (Custom ''A valid URL is required.'') z_string)
                      [] kvs ''url''))"
    | "?i \<in> set (fst (z_field (z_optional_default (JStr default_model) z_string) [] kvs ''model''))"
    | "?i \<in> set (fst (z_field (z_optional_default (JObj []) RenderOptionsSchema)
                      [] kvs ''renderOptions''))"
    unfolding RequestObject_JObj fst_z_map fst_z_and act pr by auto
  then show False
  proof cases
    case 1
    from field_issue_head [OF _ this] show False
      by (simp add: reporting_z_check reporting_z_string)
  next
    case 2
    from field_issue_head [OF _ this] show False
      by (simp add: reporting_z_optional_default reporting_z_string)
  next
    case 3
    from field_issue_head [OF _ this] show False
      by (simp add: reporting_z_optional_default reporting_RenderOptionsSchema)
  qed
qed


lemma example_invalid_url_no_prompt:
  "safeParse (RequestSchema (valid_url example_env))
     (JObj [(''url'', JStr ''not a url''), (''action'', JStr ''analyze_image'')])
   = Inl [([''url''], Custom ''A valid URL is required.''),
          ([''prompt''], Custom ''A `prompt` is required when `action` is `analyze_image`.'')]"
  by (simp add: safeParse_def RequestSchema_def RequestObject_def RenderOptionsSchema_def
      z_map_def z_and_def z_field_def z_check_def z_string_def z_enum_def z_optional_def
      z_optional_default_def z_boolean_def prompt_refinement_def example_env_def truthy_def)

lemma snd_z_string: "snd (z_string p inp) = None \<longleftrightarrow> \<not> (case inp of Some j \<Rightarrow> is_JStr j | None \<Rightarrow> False)"
  by (simp add: z_string_def is_JStr_def split: option.splits json.splits)

lemma snd_z_boolean: "snd (z_boolean p inp) = None \<longleftrightarrow> \<not> (case inp of Some j \<Rightarrow> is_JBool j | None \<Rightarrow> False)"
  by (simp add: z_boolean_def is_JBool_def split: option.splits json.splits)

lemma snd_z_number: "snd (z_number p inp) = None \<longleftrightarrow> \<not> is_JNum inp"
  by (simp add: z_number_def is_JNum_def split: option.splits json.splits)

lemma snd_z_check: "snd (z_check c m s p inp) = None \<longleftrightarrow> snd (s p inp) = None"
  by (simp add: z_check_def split: prod.splits option.splits)

lemma snd_z_optional: "snd (z_optional s p inp) = None \<longleftrightarrow> inp \<noteq> None \<and> snd (s p inp) = None"
  by (auto simp: z_optional_def split: prod.splits option.splits)

lemma snd_z_optional_default:
  "snd (z_optional_default d s p inp) = None
     \<longleftrightarrow> (case inp of None \<Rightarrow> snd (s p (Some d)) = None | Some j \<Rightarrow> snd (s p inp) = None)"
  by (simp add: z_optional_default_def split: option.splits)

lemma snd_z_map_None: "snd (z_map f a) = None \<longleftrightarrow> snd a = None"
  by (simp add: snd_z_map)

lemma snd_z_int_positive: "snd (z_int_positive p inp) = None \<longleftrightarrow> \<not> is_JNum inp"
  by (simp add: z_int_positive_def snd_z_check snd_z_number)

lemma snd_ViewportSchema:
  "snd (ViewportSchema p (Some j)) = None \<longleftrightarrow> \<not> viewport_typed j"
  by (cases j)
     (simp_all add: ViewportSchema_def viewport_typed_def snd_z_map_None snd_z_and_None
        z_field_def snd_z_int_positive)

lemma snd_optional_viewport:
  "snd (z_optional ViewportSchema p inp) = None \<longleftrightarrow> \<not> absent_or viewport_typed inp"
  by (cases inp) (simp_all add: snd_z_optional snd_ViewportSchema absent_or_def)

lemma snd_optional_string:
  "snd (z_optional z_string p inp) = None \<longleftrightarrow> \<not> absent_or is_JStr inp"
  by (cases inp) (simp_all add: snd_z_optional snd_z_string absent_or_def)

lemma snd_default_boolean:
  "snd (z_optional_default (JBool False) z_boolean p inp) = None \<longleftrightarrow> \<not> absent_or is_JBool inp"
  by (cases inp) (simp_all add: snd_z_optional_default snd_z_boolean absent_or_def is_JBool_def)

lemma snd_default_string:
  "snd (z_optional_default (JStr d) z_string p inp) = None \<longleftrightarrow> \<not> absent_or is_JStr inp"
  by (cases inp) (simp_all add: snd_z_optional_default snd_z_string absent_or_def is_JStr_def)

lemma snd_RenderOptionsSchema:
  "snd (RenderOptionsSchema p (Some j)) = None \<longleftrightarrow> \<not> render_options_typed j"
  by (cases j)
     (simp_all add: RenderOptionsSchema_def render_options_typed_def snd_z_map_None
        snd_z_and_None z_field_def snd_optional_viewport snd_default_boolean
        snd_optional_string)

lemma snd_default_render_options:
  "snd (z_optional_default (JObj []) RenderOptionsSchema p inp) = None
     \<longleftrightarrow> \<not> absent_or render_options_typed inp"
  by (cases inp)
     (simp_all add: snd_z_optional_default snd_RenderOptionsSchema absent_or_def
        render_options_typed_def)

lemma snd_action_enum:
  "snd (z_enum [(''analyze_image'', analyze_image), (''summarize_text'', summarize_text),
                (''extract_html'', extract_html)] p inp) = None
     \<longleftrightarrow> inp \<notin> {Some (JStr ''analyze_image''), Some (JStr ''summarize_text''),
                Some (JStr ''extract_html'')}"
  by (simp add: z_enum_def split: option.splits json.splits)

lemma RequestObject_aborted:
  "snd (RequestObject v p (Some (JObj kvs))) = None \<longleftrightarrow> \<not> members_typed kvs"
  unfolding RequestObject_JObj snd_z_map_None snd_z_and_None z_field_def snd_z_check
    snd_z_string snd_action_enum snd_optional_string snd_default_string
    snd_default_render_options members_typed_def
  by blast

lemma example_invalid_model_no_prompt:
  "safeParse (RequestSchema (valid_url example_env))
     (JObj [(''url'', JStr ''not a url''), (''action'', JStr ''analyze_image''),
            (''model'', JNum 5)])
   = Inl [([''url''], Custom ''A valid URL is required.''), ([''model''], Invalid_type)]"
  by (simp add: safeParse_def RequestSchema_def RequestObject_def RenderOptionsSchema_def
      z_map_def z_and_def z_field_def z_check_def z_string_def z_enum_def z_optional_def
      z_optional_default_def z_boolean_def prompt_refinement_def example_env_def truthy_def)

text \<open>
  C3 (as amended). For every request with action \<open>analyze_image\<close> and no \<open>prompt\<close> member,
  validation fails, the handler answers 400 with the flattened issues and the only call
  made is the reading of the body: no browser session is acquired. The field errors
  name \<open>prompt\<close> if and only if every member of the body has its declared type: \<open>url\<close> a
  string (it need not be a valid URL), \<open>model\<close> a string when present, \<open>renderOptions\<close>
  an object with well-typed members when present. Otherwise the refinement is not run.
\<close>

theorem missing_prompt_rejected:
  assumes "request_method req = ''POST''" and "json_body req = Inr (JObj kvs)"
    and "map_of kvs ''action'' = Some (JStr ''analyze_image'')"
    and "map_of kvs ''prompt'' = None"
  shows "\<exists>issues. safeParse (RequestSchema (valid_url env)) (JObj kvs) = Inl issues
           \<and> fetch req env =
                 (\<lparr>status = 400,
                   body = Failure \<lparr>message = ''Invalid request body.'',
                                   details = Some (flatten issues)\<rparr>\<rparr>, [RequestJson])
           \<and> acquired (snd (fetch req env)) = 0
           \<and> (''prompt'' \<in> fst ` set (fieldErrors (flatten issues)) \<longleftrightarrow> members_typed kvs)"
proof -
  let ?v = "valid_url env"
  let ?msg = "Custom ''A `prompt` is required when `action` is `analyze_image`.''"
  obtain iss r where o: "RequestObject ?v [] (Some (JObj kvs)) = (iss, r)"
    by (cases "RequestObject ?v [] (Some (JObj kvs))")
  have none: "(''prompt'' # ks, m) \<notin> set iss" for ks m
    using no_prompt_issue_from_fields [OF assms(3,4), of ks m ?v] by (simp add: o)
  have resp: "safeParse (RequestSchema ?v) (JObj kvs) = Inl issues
      \<Longrightarrow> fetch req env =
                 (\<lparr>status = 400,
                   body = Failure \<lparr>message = ''Invalid request body.'',
                                   details = Some (flatten issues)\<rparr>\<rparr>, [RequestJson])
           \<and> acquired (snd (fetch req env)) = 0" for issues
    using assms(1,2) by (simp add: fetch_def try_block_def ret_def acquired_def)
  show ?thesis
  proof (cases r)
    case None
    have sp: "safeParse (RequestSchema ?v) (JObj kvs) = Inl iss"
      by (simp add: safeParse_def RequestSchema_def o None split: list.splits)
    have "''prompt'' \<notin> fst ` set (fieldErrors (flatten iss))"
      unfolding flatten_keys using none by blast
    moreover have "\<not> members_typed kvs"
      using RequestObject_aborted [of ?v "[]" kvs] by (simp add: o None)
    ultimately show ?thesis using sp resp [OF sp] by (simp add: acquired_def)
  next
    case (Some d)
    have val: "snd (RequestObject ?v [] (Some (JObj kvs))) = Some d" by (simp add: o Some)
    have "snd (z_field (z_enum [(''analyze_image'', analyze_image),
                          (''summarize_text'', summarize_text),
                          (''extract_html'', extract_html)]) [] kvs ''action'') = Some (action d)"
      by (rule RequestObject_value(1) [OF val])
    then have a: "action d = analyze_image"
      by (simp add: z_field_def z_enum_def assms(3))
    have "snd (z_field (z_optional z_string) [] kvs ''prompt'') = Some (prompt d)"
      by (rule RequestObject_value(2) [OF val])
    then have p: "prompt d = None"
      by (simp add: z_field_def z_optional_def assms(4))
    have nr: "\<not> prompt_refinement d"
      by (simp add: prompt_refinement_def a p truthy_def)
    have sp: "safeParse (RequestSchema ?v) (JObj kvs) = Inl (iss @ [([''prompt''], ?msg)])"
      by (simp add: safeParse_def RequestSchema_def o Some nr split: list.splits)
    have "''prompt'' \<in> fst ` set (fieldErrors (flatten (iss @ [([''prompt''], ?msg)])))"
      unfolding flatten_keys by auto
    moreover have "members_typed kvs"
      using RequestObject_aborted [of ?v "[]" kvs] by (simp add: o Some)
    ultimately show ?thesis using sp resp [OF sp] by (simp add: acquired_def)
  qed
qed


text \<open>
  A body whose URL is a string, though not a URL: both \<open>url\<close> and \<open>prompt\<close> are named.
  With a number as \<open>model\<close> in addition, \<open>prompt\<close> is no longer named.
\<close>

theorem missing_prompt_rejected_witness:
  "fetch \<lparr>request_method = ''POST'',
          json_body = Inr (JObj [(''url'', JStr ''not a url''),
                                 (''action'', JStr ''analyze_image'')])\<rparr> example_env =
     (\<lparr>status = 400,
       body = Failure
         \<lparr>message = ''Invalid request body.'',
          details = Some
            \<lparr>formErrors = [],
             fieldErrors =
               [(''url'', [Custom ''A valid URL is required.'']),
                (''prompt'',
                 [Custom ''A `prompt` is required when `action` is `analyze_image`.''])]\<rparr>\<rparr>\<rparr>,
      [RequestJson])
   \<and> acquired (snd (fetch \<lparr>request_method = ''POST'',
          json_body = Inr (JObj [(''url'', JStr ''not a url''),
                                 (''action'', JStr ''analyze_image'')])\<rparr> example_env)) = 0
   \<and> members_typed [(''url'', JStr ''not a url''), (''action'', JStr ''analyze_image'')]
   \<and> fetch \<lparr>request_method = ''POST'',
          json_body = Inr (JObj [(''url'', JStr ''not a url''),
                                 (''action'', JStr ''analyze_image''),
                                 (''model'', JNum 5)])\<rparr> example_env =
     (\<lparr>status = 400,
       body = Failure
         \<lparr>message = ''Invalid request body.'',
          details = Some
            \<lparr>formErrors = [],
             fieldErrors =
               [(''url'', [Custom ''A valid URL is required.'']),
                (''model'', [Invalid_type])]\<rparr>\<rparr>\<rparr>,
      [RequestJson])
   \<and> \<not> members_typed [(''url'', JStr ''not a url''), (''action'', JStr ''analyze_image''),
                          (''model'', JNum 5)]"
proof -
  let ?kvs = "[(''url'', JStr ''not a url''), (''action'', JStr ''analyze_image'')]"
  let ?kvs5 = "[(''url'', JStr ''not a url''), (''action'', JStr ''analyze_image''),
                (''model'', JNum 5)]"
  have m: "request_method \<lparr>request_method = ''POST'', json_body = x\<rparr> = ''POST''"
    and b: "json_body \<lparr>request_method = ''POST'', json_body = x\<rparr> = x" for x
    by simp_all
  have a: "map_of ?kvs ''action'' = Some (JStr ''analyze_image'')"
    and p: "map_of ?kvs ''prompt'' = None"
    and a5: "map_of ?kvs5 ''action'' = Some (JStr ''analyze_image'')"
    and p5: "map_of ?kvs5 ''prompt'' = None"
    by simp_all
  have fl: "flatten [([''url''], Custom ''A valid URL is required.''),
          ([''prompt''], Custom ''A `prompt` is required when `action` is `analyze_image`.'')]
      = \<lparr>formErrors = [],
         fieldErrors =
               [(''url'', [Custom ''A valid URL is required.'']),
                (''prompt'',
                 [Custom ''A `prompt` is required when `action` is `analyze_image`.''])]\<rparr>"
    and fl5: "flatten [([''url''], Custom ''A valid URL is required.''), ([''model''], Invalid_type)]
      = \<lparr>formErrors = [],
         fieldErrors = [(''url'', [Custom ''A valid URL is required.'']),
                        (''model'', [Invalid_type])]\<rparr>"
    by (simp_all add: flatten_def)
  have typed: "members_typed ?kvs" and untyped: "\<not> members_typed ?kvs5"
    by (simp_all add: members_typed_def absent_or_def is_JStr_def)
  from missing_prompt_rejected [OF m b a p, of example_env]
    missing_prompt_rejected [OF m b a5 p5, of example_env]
  show ?thesis
    unfolding example_invalid_url_no_prompt example_invalid_model_no_prompt
    by (auto simp: fl fl5 acquired_def typed untyped)
qed

text \<open>
  C3 as stated fails when another member is ill-typed: for the body
  \<open>{action: "analyze_image"}\<close> the only field error is the one of the missing \<open>url\<close>.
\<close>

theorem missing_prompt_unnamed_counterexample:
  "fetch \<lparr>request_method = ''POST'',
          json_body = Inr (JObj [(''action'', JStr ''analyze_image'')])\<rparr> example_env =
     (\<lparr>status = 400,
       body = Failure
         \<lparr>message = ''Invalid request body.'',
          details = Some \<lparr>formErrors = [], fieldErrors = [(''url'', [Invalid_type])]\<rparr>\<rparr>\<rparr>,
      [RequestJson])"
  by (simp add: fetch_def try_block_def ret_def safeParse_def RequestSchema_def RequestObject_def
      RenderOptionsSchema_def z_map_def z_and_def z_field_def z_check_def z_string_def z_enum_def
      z_optional_def z_optional_default_def z_boolean_def example_env_def flatten_def)

subsection \<open>The bound on the text sent to the model\<close>

lemma analyze_link_loaded:
  assumes "link_url req = Inr (Some u)" and "u \<noteq> []" and "URL_ok env u"
    and "link_launch env = Inr ()" and "link_newPage env = Inr ()"
    and "link_goto env u = Inr ()" and "link_textContent env = Inr pageContent"
    and "link_close env = Inr ()"
  shows "analyze_link req env =
    (case link_AI_run env link_model (link_inputs (link_scaffolding @ limit_content pageContent)) of
       Inl e \<Rightarrow>
         (\<lparr>link_status = 500,
           link_body = LinkFailure ''Failed to analyze link'' (unknown_or_message e)\<rparr>,
          [RequestJson, Launch, NewPage, Goto u, Evaluate, Close,
           AiRun link_model (link_inputs (link_scaffolding @ limit_content pageContent)),
           ConsoleError])
     | Inr r \<Rightarrow>
         (\<lparr>link_status = 200, link_body = LinkAnalysis r u (link_timestamp env)\<rparr>,
          [RequestJson, Launch, NewPage, Goto u, Evaluate, Close,
           AiRun link_model (link_inputs (link_scaffolding @ limit_content pageContent))]))"
  using assms
  by (simp add: analyze_link_def link_try_block_def load_content_def with_finally_def
      try_catch_def await_def call_def ret_def truthy_def Let_def split: sum.splits)

lemma analyze_link_closes_on_fault:
  assumes "link_url req = Inr (Some u)" and "u \<noteq> []" and "URL_ok env u"
    and "link_launch env = Inr ()" and "link_newPage env = Inr ()"
    and "link_goto env u = Inl e" and "link_close env = Inr ()"
  shows "analyze_link req env =
    (\<lparr>link_status = 500,
      link_body = LinkError (''Failed to load or extract content from URL: ''
                             @ unknown_or_message e)\<rparr>,
     [RequestJson, Launch, NewPage, Goto u, ConsoleError, Close])"
  using assms
  by (simp add: analyze_link_def link_try_block_def load_content_def with_finally_def
      try_catch_def await_def call_def ret_def truthy_def Let_def split: sum.splits)


text \<open>
  C4. Whenever the page loads and its text is read, the one inference call is made,
  whatever the length of the text (truncation raises nothing). In \<open>summarize_text\<close> the
  prompt sent to the model is the fixed scaffolding followed by the first 8000 characters
  of the page text, exactly 8000 when the text is longer. In the link analysis the user
  message sent to the model is the fixed scaffolding followed by the page text, which,
  when it is longer than 10000 characters, is cut to exactly its first 10000 characters
  and followed by the three dots the handler appends.
\<close>

theorem page_text_truncated:
  assumes "request_method req = ''POST''" and "json_body req = Inr b"
    and "safeParse (RequestSchema (valid_url env)) b = Inr d"
    and "action d = summarize_text"
    and "fst (launchAndNavigate env (url d) (renderOptions d)) = Inr ()"
    and "page_innerText env = Inr pageText"
    and "link_url lreq = Inr (Some u)" and "u \<noteq> []" and "URL_ok lenv u"
    and "link_launch lenv = Inr ()" and "link_newPage lenv = Inr ()"
    and "link_goto lenv u = Inr ()" and "link_textContent lenv = Inr pageContent"
    and "link_close lenv = Inr ()"
  shows "inference_calls (snd (fetch req env)) =
           [AiRun ''@cf/meta/llama-2-7b-chat-int8''
              (TextPrompt
                 (''Please provide a concise summary of the following text extracted from a webpage:''
                  @ [CHR 0x0A, CHR 0x0A] @ ''---'' @ [CHR 0x0A, CHR 0x0A]
                  @ take 8000 pageText))]
       \<and> (8000 < length pageText \<longrightarrow> length (take 8000 pageText) = 8000)
       \<and> inference_calls (snd (analyze_link lreq lenv)) =
           [AiRun ''@cf/google/gemma-3-12b-it''
              (Chat [Message ''system''
                       ''You are a helpful assistant that summarizes web page content.'',
                     Message ''user''
                       (''Summarize the following text from a webpage. Focus on key information and main points. If the text is too short or irrelevant, state that.''
                        @ [CHR 0x0A] @ ''        '' @ [CHR 0x0A] @ ''        Text:''
                        @ [CHR 0x0A] @ ''        ''
                        @ (if 10000 < length pageContent
                           then take 10000 pageContent @ ''...'' else pageContent))]
                 2000 (2 / 10))]
       \<and> (10000 < length pageContent \<longrightarrow> length (take 10000 pageContent) = 10000)"
proof -
  obtain t where nav: "launchAndNavigate env (url d) (renderOptions d) = (Inr (), t)"
    using assms(5) by (cases "launchAndNavigate env (url d) (renderOptions d)") auto
  have t: "inference_calls t = []"
    using launchAndNavigate_no_calls [of env "url d" "renderOptions d"] nav by simp
  have summ: "inference_calls (snd (fetch req env)) =
           [AiRun textModel (TextPrompt (summarization_scaffolding @ take 8000 pageText))]"
    unfolding fetch_valid [OF assms(1-3)] route_summarize_text [OF assms(4)] nav
    by (simp add: assms(6) t [unfolded inference_calls_def] inference_calls_def
        split: sum.splits)
  have link: "inference_calls (snd (analyze_link lreq lenv)) =
           [AiRun link_model (link_inputs (link_scaffolding @ limit_content pageContent))]"
    unfolding analyze_link_loaded [OF assms(7-14)]
    by (simp add: inference_calls_def split: sum.splits)
  show ?thesis
    unfolding summ link
    by (simp add: textModel_def summarization_scaffolding_def newline_def link_model_def
        link_inputs_def link_scaffolding_def limit_content_def)
qed

text \<open>A page of 20000 characters, in both handlers.\<close>

theorem page_text_truncated_witness:
  "inference_calls (snd (fetch (example_request [(''action'', JStr ''summarize_text'')])
       (example_env\<lparr>page_innerText := Inr (replicate 20000 CHR ''x'')\<rparr>))) =
     [AiRun ''@cf/meta/llama-2-7b-chat-int8''
        (TextPrompt
           (''Please provide a concise summary of the following text extracted from a webpage:''
            @ [CHR 0x0A, CHR 0x0A] @ ''---'' @ [CHR 0x0A, CHR 0x0A]
            @ replicate 8000 CHR ''x''))]
   \<and> inference_calls (snd (analyze_link example_link_request
       (example_link_env (replicate 20000 CHR ''x'')))) =
     [AiRun ''@cf/google/gemma-3-12b-it''
        (Chat [Message ''system''
                 ''You are a helpful assistant that summarizes web page content.'',
               Message ''user''
                 (''Summarize the following text from a webpage. Focus on key information and main points. If the text is too short or irrelevant, state that.''
                  @ [CHR 0x0A] @ ''        '' @ [CHR 0x0A] @ ''        Text:''
                  @ [CHR 0x0A] @ ''        ''
                  @ replicate 10000 CHR ''x'' @ ''...'')]
           2000 (2 / 10))]"
proof -
  let ?req = "example_request [(''action'', JStr ''summarize_text'')]"
  let ?env = "example_env\<lparr>page_innerText := Inr (replicate 20000 CHR ''x'')\<rparr>"
  let ?d = "example_data summarize_text None ''@cf/llava-1.5-7b-hf''"
  let ?lenv = "example_link_env (replicate 20000 CHR ''x'')"
  have m: "request_method ?req = ''POST''"
    and b: "json_body ?req = Inr (example_body [(''action'', JStr ''summarize_text'')])"
    by (simp_all add: example_request_def)
  have v: "safeParse (RequestSchema (valid_url ?env))
      (example_body [(''action'', JStr ''summarize_text'')]) = Inr ?d"
    using example_valid_summarize_default by simp
  have a: "action ?d = summarize_text" by (simp add: example_data_def)
  have nav: "fst (launchAndNavigate ?env (url ?d) (renderOptions ?d)) = Inr ()"
    by (simp add: launchAndNavigate_innerText example_data_def example_navigation)
  have inner: "page_innerText ?env = Inr (replicate 20000 CHR ''x'')" by simp
  have l: "link_url example_link_request = Inr (Some ''https://example.com'')"
    "''https://example.com'' \<noteq> []"
    "URL_ok ?lenv ''https://example.com''"
    "link_launch ?lenv = Inr ()" "link_newPage ?lenv = Inr ()"
    "link_goto ?lenv ''https://example.com'' = Inr ()"
    "link_textContent ?lenv = Inr (replicate 20000 CHR ''x'')"
    "link_close ?lenv = Inr ()"
    by (simp_all add: example_link_request_def example_link_env_def)
  from page_text_truncated [OF m b v a nav inner l]
  show ?thesis
    by simp
qed

subsection \<open>The call to the model service\<close>





subsection \<open>The fenced block\<close>

lemma match_here_fenced:
  fixes after_tag :: "string \<Rightarrow> string option option"
  defines "after_tag \<equiv> \<lambda>t. star is_space t
                    (\<lambda>t1. lazy_star (\<lambda>c. True) t1
                      (\<lambda>t2. star is_space t2
                        (\<lambda>t3. if prefix fence t3
                              then Some (Some (take (length t1 - length t2) t1)) else None)))"
  shows "match_here fenced_block s =
     (if prefix fence s
      then (case (if prefix ''json'' (drop (length fence) s)
                  then after_tag (drop (length ''json'') (drop (length fence) s))
                  else None) of
              Some x \<Rightarrow> Some x
            | None \<Rightarrow> after_tag (drop (length fence) s))
      else None)"
  unfolding after_tag_def
  by (simp only: match_here_def fenced_block_def run.simps drop_0 list.size)

lemma star_spaces:
  assumes "list_all is_space ws" and "t = [] \<or> \<not> is_space (hd t)" and "k t = Some v"
  shows "star is_space (ws @ t) k = Some v"
  using assms(1)
proof (induction ws)
  case Nil
  from assms(2,3) show ?case by (cases t) auto
next
  case (Cons c ws)
  then show ?case by simp
qed

lemma star_closing:
  "star is_space t (\<lambda>u. if prefix fence u then Some v else None)
     = (if prefix fence (dropWhile is_space t) then Some v else None)"
  by (induction t) (auto simp: fence_def is_space_def)

lemma lazy_star_here: "k t = Some v \<Longrightarrow> lazy_star cls t k = Some v"
  by (cases t) auto

lemma lazy_star_skip:
  assumes "\<forall>n<length b. k (drop n b @ rest) = None"
  shows "lazy_star (\<lambda>c. True) (b @ rest) k = lazy_star (\<lambda>c. True) rest k"
  using assms
proof (induction b)
  case Nil
  show ?case by simp
next
  case (Cons c cs)
  from Cons.prems have here: "k (c # cs @ rest) = None" by force
  have "\<forall>n<length cs. k (drop n cs @ rest) = None"
  proof (intro allI impI)
    fix n assume "n < length cs"
    with Cons.prems have "k (drop (Suc n) (c # cs) @ rest) = None" by force
    then show "k (drop n cs @ rest) = None" by simp
  qed
  with Cons.IH here show ?case by simp
qed

lemma has_fence_suffix: "suffix w xs \<Longrightarrow> has_fence w \<Longrightarrow> has_fence xs"
proof (induction xs)
  case Nil
  then show ?case by simp
next
  case (Cons c cs)
  then show ?case by (auto simp: suffix_Cons)
qed

lemma fence_not_across:
  assumes "w \<noteq> []" and "last w \<noteq> CHR 0x60" and "\<not> has_fence w"
  shows "\<not> prefix fence (w @ rest)"
proof
  assume p: "prefix fence (w @ rest)"
  show False
  proof (cases "3 \<le> length w")
    case True
    have "length fence \<le> length w" using True by (simp add: fence_def)
    with p have "prefix fence w"
      by (rule prefix_length_prefix [OF _ prefixI [OF refl]])
    with assms(1,3) show False by (cases w) auto
  next
    case False
    then consider a where "w = [a]" | a b where "w = [a, b]"
      using assms(1) by (cases w; cases "tl w"; cases "tl (tl w)") auto
    then show False
      using p assms(2) by cases (auto simp: fence_def)
  qed
qed


lemma no_close_inside:
  assumes "b \<noteq> []" and "\<not> is_space (last b)" and "last b \<noteq> CHR 0x60"
    and "\<not> has_fence b" and "n < length b"
  shows "\<not> prefix fence (dropWhile is_space (drop n b @ rest))"
proof -
  let ?u = "drop n b"
  let ?w = "dropWhile is_space ?u"
  have u: "?u \<noteq> []" and lu: "last ?u = last b"
    using assms(5) by (simp_all add: last_drop)
  have mem: "last ?u \<in> set ?u" by (rule last_in_set [OF u])
  have dw: "dropWhile is_space (?u @ rest) = ?w @ rest"
    by (rule dropWhile_append1 [OF mem]) (simp add: lu assms(2))
  have w: "?w \<noteq> []"
    using mem assms(2) lu by (auto simp: dropWhile_eq_Nil_conv)
  have "?u = takeWhile is_space ?u @ ?w" by simp
  then have "last ?u = last ?w" using w by (metis last_appendR)
  then have lw: "last ?w \<noteq> CHR 0x60" using lu assms(3) by simp
  have "suffix ?w b"
    by (rule suffix_order.trans [OF suffix_dropWhile suffix_drop])
  then have nf: "\<not> has_fence ?w" using assms(4) has_fence_suffix by blast
  show ?thesis
    unfolding dw by (rule fence_not_across [OF w lw nf])
qed

lemma closing_found:
  assumes "list_all is_space ws"
  shows "prefix fence (dropWhile is_space (ws @ fence @ suf))"
proof -
  have "dropWhile is_space (ws @ fence @ suf) = dropWhile is_space (fence @ suf)"
    using assms by (simp add: dropWhile_append2 list_all_iff)
  then show ?thesis by (simp add: fence_def is_space_def)
qed

lemma interior_captured:
  assumes "list_all is_space ws1" and "list_all is_space ws2"
    and "b \<noteq> []" and "\<not> is_space (hd b)" and "\<not> is_space (last b)"
    and "last b \<noteq> CHR 0x60" and "\<not> has_fence b"
  shows "star is_space (ws1 @ b @ ws2 @ fence @ suf)
           (\<lambda>t1. lazy_star (\<lambda>c. True) t1
              (\<lambda>t2. star is_space t2
                 (\<lambda>t3. if prefix fence t3
                       then Some (Some (take (length t1 - length t2) t1)) else None)))
         = Some (Some b)"
proof -
  let ?rest = "ws2 @ fence @ suf"
  let ?t1 = "b @ ?rest"
  let ?k = "\<lambda>t2. star is_space t2
                 (\<lambda>t3. if prefix fence t3
                       then Some (Some (take (length ?t1 - length t2) ?t1)) else None)"
  have inside: "\<forall>n<length b. ?k (drop n b @ ?rest) = None"
    using no_close_inside [OF assms(3,5,6,7)] by (simp add: star_closing)
  have at_end: "?k ?rest = Some (Some b)"
    using closing_found [OF assms(2)] by (simp add: star_closing)
  have "lazy_star (\<lambda>c. True) ?t1 ?k = lazy_star (\<lambda>c. True) ?rest ?k"
    by (rule lazy_star_skip [where k = ?k and b = b and rest = ?rest, OF inside])
  also have "\<dots> = Some (Some b)"
    by (rule lazy_star_here [where k = ?k and t = ?rest, OF at_end])
  finally have body: "lazy_star (\<lambda>c. True) ?t1 ?k = Some (Some b)" .
  have hd: "?t1 = [] \<or> \<not> is_space (hd ?t1)"
    using assms(3,4) by simp
  show ?thesis
    using star_spaces [where t = ?t1 and k = "\<lambda>t1. lazy_star (\<lambda>c. True) t1
              (\<lambda>t2. star is_space t2
                 (\<lambda>t3. if prefix fence t3
                       then Some (Some (take (length t1 - length t2) t1)) else None))",
        OF assms(1) hd body]
    by simp
qed


lemma match_here_no_fence: "\<not> prefix fence s \<Longrightarrow> match_here fenced_block s = None"
  by (simp only: match_here_fenced if_False)

lemma match_here_block:
  assumes "tag = ''json'' \<or> (tag = [] \<and> hd (ws1 @ b) \<noteq> CHR ''j'')"
    and "list_all is_space ws1" and "list_all is_space ws2"
    and "b \<noteq> []" and "\<not> is_space (hd b)" and "\<not> is_space (last b)"
    and "last b \<noteq> CHR 0x60" and "\<not> has_fence b"
  shows "match_here fenced_block (fence @ tag @ ws1 @ b @ ws2 @ fence @ suf) = Some (Some b)"
proof -
  note cap = interior_captured [OF assms(2-8), of suf]
  from assms(1) show ?thesis
  proof
    assume "tag = ''json''"
    then show ?thesis
      unfolding match_here_fenced by (simp add: cap)
  next
    assume t: "tag = [] \<and> hd (ws1 @ b) \<noteq> CHR ''j''"
    have "ws1 @ b \<noteq> []" using assms(4) by simp
    then have "hd ((ws1 @ b) @ ws2 @ fence @ suf) = hd (ws1 @ b)"
      by (rule hd_append2)
    with t have first: "hd (ws1 @ b @ ws2 @ fence @ suf) \<noteq> CHR ''j''" by simp
    have "\<not> prefix ''json'' (ws1 @ b @ ws2 @ fence @ suf)"
    proof
      assume "prefix ''json'' (ws1 @ b @ ws2 @ fence @ suf)"
      then obtain zs where "ws1 @ b @ ws2 @ fence @ suf = ''json'' @ zs"
        by (auto simp: prefix_def)
      then have "hd (ws1 @ b @ ws2 @ fence @ suf) = CHR ''j''" by simp
      with first show False by simp
    qed
    with t show ?thesis
      unfolding match_here_fenced by (simp add: cap)
  qed
qed

lemma match_skip:
  assumes "\<not> has_fence pre" and "pre = [] \<or> last pre \<noteq> CHR 0x60"
  shows "match fenced_block (pre @ s) = match fenced_block s"
  using assms
proof (induction pre)
  case Nil
  show ?case by simp
next
  case (Cons c cs)
  have "\<not> prefix fence ((c # cs) @ s)"
    by (rule fence_not_across) (use Cons.prems in auto)
  then have here: "match_here fenced_block (c # cs @ s) = None"
    using match_here_no_fence by simp
  have "match fenced_block (cs @ s) = match fenced_block s"
    by (rule Cons.IH) (use Cons.prems in \<open>auto split: if_splits\<close>)
  with here show ?case by simp
qed

lemma match_found: "match_here r s = Some x \<Longrightarrow> match r s = Some x"
  by (cases s) simp_all

lemma match_none: "\<not> has_fence s \<Longrightarrow> match fenced_block s = None"
proof (induction s)
  case Nil
  show ?case by (simp add: match_here_no_fence fence_def)
next
  case (Cons c cs)
  then show ?case by (simp add: match_here_no_fence)
qed

lemma candidate_fenced:
  assumes "\<not> has_fence pre" and "pre = [] \<or> last pre \<noteq> CHR 0x60"
    and "tag = ''json'' \<or> (tag = [] \<and> hd (ws1 @ b) \<noteq> CHR ''j'')"
    and "list_all is_space ws1" and "list_all is_space ws2"
    and "b \<noteq> []" and "\<not> is_space (hd b)" and "\<not> is_space (last b)"
    and "last b \<noteq> CHR 0x60" and "\<not> has_fence b"
  shows "candidate (pre @ fence @ tag @ ws1 @ b @ ws2 @ fence @ suf) = Some b"
  unfolding candidate_def match_skip [OF assms(1,2)]
    match_found [OF match_here_block [OF assms(3-10)]]
  by simp

lemma candidate_bare: "\<not> has_fence s \<Longrightarrow> candidate s = Some s"
  by (simp add: candidate_def match_none)

lemma getLLMResult_ok:
  assumes "http_fetch env (aiUrl env) p = Inr response" and "ok response"
    and "response_json response = Inr reply"
  shows "fst (getLLMResult env p) =
           Inr (JSON_parse env (case candidate reply of Some v \<Rightarrow> v | None \<Rightarrow> ''undefined''))"
  using assms
  by (simp add: getLLMResult_def await_def call_def ret_def or_empty_def Let_def
      split: option.splits)

subsection \<open>Invoking the model, and resolving its reply\<close>



subsection \<open>The regular expression takes the interior of the first block\<close>

lemma closes_Nil: "\<not> closes []"
  by (simp add: closes_def fence_def)

lemma closes_space: "is_space c \<Longrightarrow> closes (c # cs) = closes cs"
  by (simp add: closes_def)

lemma upto_close_None: "upto_close t = None \<Longrightarrow> \<not> closes t"
  by (cases t) (auto simp: closes_Nil split: if_splits)

lemma upto_close_prefix: "upto_close t = Some b \<Longrightarrow> prefix b t"
  by (induction t arbitrary: b) (auto split: if_splits)

lemma star_closes:
  "star is_space t (\<lambda>u. if prefix fence u then Some v else None)
     = (if closes t then Some v else None)"
  by (simp add: star_closing closes_def)

lemma lazy_star_upto:
  "lazy_star (\<lambda>c. True) t (\<lambda>t2. if closes t2 then Some (G t2) else None)
     = (case upto_close t of None \<Rightarrow> None | Some b \<Rightarrow> Some (G (drop (length b) t)))"
  by (induction t) (auto simp: closes_Nil split: option.splits)

lemma capture_upto:
  "lazy_star (\<lambda>c. True) t1
     (\<lambda>t2. star is_space t2
        (\<lambda>t3. if prefix fence t3 then Some (Some (take (length t1 - length t2) t1)) else None))
   = map_option Some (upto_close t1)"
proof -
  have "lazy_star (\<lambda>c. True) t1
     (\<lambda>t2. star is_space t2
        (\<lambda>t3. if prefix fence t3 then Some (Some (take (length t1 - length t2) t1)) else None))
    = lazy_star (\<lambda>c. True) t1
        (\<lambda>t2. if closes t2 then Some (Some (take (length t1 - length t2) t1)) else None)"
    by (simp only: star_closes)
  also have "\<dots> = (case upto_close t1 of None \<Rightarrow> None
       | Some b \<Rightarrow> Some (Some (take (length t1 - length (drop (length b) t1)) t1)))"
    by (rule lazy_star_upto [where G = "\<lambda>t2. Some (take (length t1 - length t2) t1)"])
  also have "\<dots> = map_option Some (upto_close t1)"
  proof (cases "upto_close t1")
    case None
    then show ?thesis by simp
  next
    case (Some b)
    then obtain zs where "t1 = b @ zs"
      using upto_close_prefix by (auto simp: prefix_def)
    with Some show ?thesis by simp
  qed
  finally show ?thesis .
qed


lemma upto_close_space: "is_space c \<Longrightarrow> upto_close cs = None \<Longrightarrow> upto_close (c # cs) = None"
  using upto_close_None [of cs] by (simp add: closes_space)

lemma upto_close_dropWhile:
  "upto_close (dropWhile is_space t) = None \<Longrightarrow> upto_close t = None"
proof (induction t)
  case Nil
  then show ?case by simp
next
  case (Cons c cs)
  show ?case
  proof (cases "is_space c")
    case True
    with Cons have "upto_close cs = None" by simp
    with True show ?thesis by (rule upto_close_space)
  next
    case False
    with Cons.prems show ?thesis by (simp del: upto_close.simps)
  qed
qed

lemma star_upto:
  "star is_space r (\<lambda>t1. map_option Some (upto_close t1))
     = map_option Some (upto_close (dropWhile is_space r))"
proof (induction r)
  case Nil
  show ?case by simp
next
  case (Cons c cs)
  show ?case
  proof (cases "is_space c")
    case False
    then show ?thesis by simp
  next
    case True
    show ?thesis
    proof (cases "upto_close (dropWhile is_space cs)")
      case (Some b)
      with True Cons.IH show ?thesis by simp
    next
      case None
      then have "upto_close (c # cs) = None"
        using True upto_close_dropWhile upto_close_space by blast
      with True None Cons.IH show ?thesis by (simp del: upto_close.simps)
    qed
  qed
qed

lemma after_tag_upto:
  "star is_space r
     (\<lambda>t1. lazy_star (\<lambda>c. True) t1
        (\<lambda>t2. star is_space t2
           (\<lambda>t3. if prefix fence t3
                 then Some (Some (take (length t1 - length t2) t1)) else None)))
   = map_option Some (upto_close (dropWhile is_space r))"
  by (simp only: capture_upto star_upto)

lemma upto_close_after_tag:
  assumes "prefix ''json'' r" and "upto_close (dropWhile is_space (drop (length ''json'') r)) = None"
  shows "upto_close (dropWhile is_space r) = None"
proof -
  from assms(1) obtain rest where r: "r = ''json'' @ rest" by (auto simp: prefix_def)
  have "upto_close rest = None"
    using assms(2) upto_close_dropWhile by (simp add: r)
  then show ?thesis
    by (simp add: r is_space_def closes_def fence_def)
qed

lemma match_here_interior: "match_here fenced_block s = map_option Some (block_interior s)"
proof (cases "prefix fence s")
  case False
  then show ?thesis by (simp add: match_here_no_fence block_interior_def)
next
  case True
  let ?r = "drop (length fence) s"
  show ?thesis
  proof (cases "prefix ''json'' ?r")
    case False
    with True show ?thesis
      unfolding match_here_fenced after_tag_upto block_interior_def Let_def
      by (simp only: if_True if_False option.case)
  next
    case json: True
    show ?thesis
    proof (cases "upto_close (dropWhile is_space (drop (length ''json'') ?r))")
      case (Some b)
      with True json show ?thesis
        unfolding match_here_fenced after_tag_upto block_interior_def Let_def
        by (simp only: if_True option.case option.map)
    next
      case None
      have "upto_close (dropWhile is_space ?r) = None"
        by (rule upto_close_after_tag [OF json None])
      with True json None show ?thesis
        unfolding match_here_fenced after_tag_upto block_interior_def Let_def
        by (simp only: if_True option.case option.map)
    qed
  qed
qed

lemma match_interior: "match fenced_block s = map_option Some (first_block_interior s)"
proof (induction s)
  case Nil
  show ?case by (simp add: match_here_interior block_interior_def fence_def)
next
  case (Cons c cs)
  then show ?case
    by (simp add: match_here_interior split: option.splits)
qed

lemma candidate_interior:
  "candidate s = Some (case first_block_interior s of Some b \<Rightarrow> b | None \<Rightarrow> s)"
  by (simp add: candidate_def match_interior split: option.splits)

lemma prefix_fence_has: "prefix fence w \<Longrightarrow> has_fence w"
  by (cases w) (simp_all add: fence_def)

lemma upto_close_fence: "upto_close t = Some b \<Longrightarrow> has_fence t"
proof (induction t arbitrary: b)
  case Nil
  then show ?case by simp
next
  case (Cons c cs)
  show ?case
  proof (cases "closes (c # cs)")
    case True
    then have "prefix fence (dropWhile is_space (c # cs))" by (simp only: closes_def)
    then have "has_fence (dropWhile is_space (c # cs))" by (rule prefix_fence_has)
    then show ?thesis
      using has_fence_suffix [OF suffix_dropWhile] by blast
  next
    case False
    with Cons.prems obtain b' where "upto_close cs = Some b'" by auto
    then have "has_fence cs" by (rule Cons.IH)
    then show ?thesis by simp
  qed
qed

lemma block_unclosed:
  assumes "\<not> has_fence (drop (length fence) u)"
  shows "block_interior u = None"
proof (cases "prefix fence u")
  case False
  then show ?thesis by (simp add: block_interior_def)
next
  case True
  define r where "r = drop (length fence) u"
  define r' where "r' = (if prefix ''json'' r then drop (length ''json'') r else r)"
  have "suffix r' r" by (simp add: r'_def suffix_drop)
  then have "suffix (dropWhile is_space r') r"
    by (rule suffix_order.trans [OF suffix_dropWhile])
  then have "\<not> has_fence (dropWhile is_space r')"
    using assms has_fence_suffix unfolding r_def by blast
  then have "upto_close (dropWhile is_space r') = None"
    using upto_close_fence by (cases "upto_close (dropWhile is_space r')") auto
  moreover have "block_interior u = upto_close (dropWhile is_space r')"
    using True by (simp only: block_interior_def Let_def r'_def r_def if_True)
  ultimately show ?thesis by simp
qed

lemma first_block_none: "\<not> has_fence t \<Longrightarrow> first_block_interior t = None"
proof (induction t)
  case Nil
  show ?case by simp
next
  case (Cons c cs)
  then show ?case by (simp add: block_interior_def)
qed

lemma first_block_unclosed:
  assumes "\<not> has_fence rest"
  shows "first_block_interior (fence @ rest) = None"
proof -
  have d: "\<not> has_fence (drop n rest)" for n
    using assms has_fence_suffix [OF suffix_drop] by blast
  have b0: "block_interior (CHR 0x60 # CHR 0x60 # CHR 0x60 # rest) = None"
    by (rule block_unclosed) (simp add: fence_def assms)
  have b1: "block_interior (CHR 0x60 # CHR 0x60 # rest) = None"
    by (rule block_unclosed) (use d [of 1] in \<open>simp add: fence_def\<close>)
  have b2: "block_interior (CHR 0x60 # rest) = None"
    by (rule block_unclosed) (use d [of 2] in \<open>simp add: fence_def numeral_2_eq_2\<close>)
  show ?thesis
    by (simp add: fence_def b0 b1 b2 first_block_none [OF assms])
qed

lemma first_block_skip:
  assumes "\<not> has_fence pre" and "pre = [] \<or> last pre \<noteq> CHR 0x60"
  shows "first_block_interior (pre @ s) = first_block_interior s"
proof -
  have "map_option Some (first_block_interior (pre @ s))
      = (map_option Some (first_block_interior s) :: string option option)"
    using match_skip [OF assms, of s] by (simp only: match_interior)
  then show ?thesis
    by (cases "first_block_interior (pre @ s)"; cases "first_block_interior s") simp_all
qed

lemma first_block_fenced:
  assumes "\<not> has_fence pre" and "pre = [] \<or> last pre \<noteq> CHR 0x60"
    and "tag = ''json'' \<or> (tag = [] \<and> hd (ws1 @ b) \<noteq> CHR ''j'')"
    and "list_all is_space ws1" and "list_all is_space ws2"
    and "b \<noteq> []" and "\<not> is_space (hd b)" and "\<not> is_space (last b)"
    and "last b \<noteq> CHR 0x60" and "\<not> has_fence b"
  shows "first_block_interior (pre @ fence @ tag @ ws1 @ b @ ws2 @ fence @ suf) = Some b"
proof -
  let ?s = "fence @ tag @ ws1 @ b @ ws2 @ fence @ suf"
  have "match fenced_block (pre @ ?s) = Some (Some b)"
    unfolding match_skip [OF assms(1,2)]
    by (rule match_found [OF match_here_block [OF assms(3-10)]])
  then have "map_option Some (first_block_interior (pre @ ?s)) = Some (Some b)"
    by (simp only: match_interior)
  then show ?thesis by auto
qed

text \<open>
  C2 (as amended). When the model service answers with a reply, \<open>getLLMResult\<close> never
  raises: for every reply its result is the parse of the candidate text, \<open>undefined\<close>
  (here \<open>None\<close>) when the parse fails, and the candidate is the interior of the first
  block fenced by triple backticks, optionally tagged \<open>json\<close>, white space around it
  dropped, when there is one, and the whole reply otherwise. A reply that holds a fenced
  document amid prose resolves to the parse of that document when no fence starts in the
  prose before it and the document itself holds no triple backticks. A reply without
  triple backticks, or with a single fence that is never closed, resolves to the parse of
  the whole reply.
\<close>

theorem structured_result_resolution:
  assumes "http_fetch env (aiUrl env) p = Inr response" and "ok response"
    and "response_json response = Inr reply"
  shows "fst (getLLMResult env p) =
           Inr (JSON_parse env (case first_block_interior reply of
                                  Some interior \<Rightarrow> interior | None \<Rightarrow> reply))
       \<and> (reply = pre @ fence @ tag @ ws1 @ doc @ ws2 @ fence @ suf
            \<longrightarrow> \<not> has_fence pre \<and> (pre = [] \<or> last pre \<noteq> CHR 0x60)
            \<longrightarrow> tag = ''json'' \<or> (tag = [] \<and> hd (ws1 @ doc) \<noteq> CHR ''j'')
            \<longrightarrow> list_all is_space ws1 \<and> list_all is_space ws2
            \<longrightarrow> doc \<noteq> [] \<and> \<not> is_space (hd doc) \<and> \<not> is_space (last doc)
                 \<and> last doc \<noteq> CHR 0x60 \<and> \<not> has_fence doc
            \<longrightarrow> first_block_interior reply = Some doc
              \<and> fst (getLLMResult env p) = Inr (JSON_parse env doc))
       \<and> (\<not> has_fence reply
            \<or> (reply = lead @ fence @ rest \<and> \<not> has_fence lead
                 \<and> (lead = [] \<or> last lead \<noteq> CHR 0x60) \<and> \<not> has_fence rest)
            \<longrightarrow> first_block_interior reply = None
              \<and> fst (getLLMResult env p) = Inr (JSON_parse env reply))"
proof -
  have res: "fst (getLLMResult env p) =
           Inr (JSON_parse env (case first_block_interior reply of
                                  Some interior \<Rightarrow> interior | None \<Rightarrow> reply))"
    by (simp add: getLLMResult_ok [OF assms] candidate_interior)
  have block: "reply = pre @ fence @ tag @ ws1 @ doc @ ws2 @ fence @ suf
            \<longrightarrow> \<not> has_fence pre \<and> (pre = [] \<or> last pre \<noteq> CHR 0x60)
            \<longrightarrow> tag = ''json'' \<or> (tag = [] \<and> hd (ws1 @ doc) \<noteq> CHR ''j'')
            \<longrightarrow> list_all is_space ws1 \<and> list_all is_space ws2
            \<longrightarrow> doc \<noteq> [] \<and> \<not> is_space (hd doc) \<and> \<not> is_space (last doc)
                 \<and> last doc \<noteq> CHR 0x60 \<and> \<not> has_fence doc
            \<longrightarrow> first_block_interior reply = Some doc
              \<and> fst (getLLMResult env p) = Inr (JSON_parse env doc)"
  proof (intro impI)
    assume "reply = pre @ fence @ tag @ ws1 @ doc @ ws2 @ fence @ suf"
      and "\<not> has_fence pre \<and> (pre = [] \<or> last pre \<noteq> CHR 0x60)"
      and "tag = ''json'' \<or> (tag = [] \<and> hd (ws1 @ doc) \<noteq> CHR ''j'')"
      and "list_all is_space ws1 \<and> list_all is_space ws2"
      and "doc \<noteq> [] \<and> \<not> is_space (hd doc) \<and> \<not> is_space (last doc)
                 \<and> last doc \<noteq> CHR 0x60 \<and> \<not> has_fence doc"
    then have "first_block_interior reply = Some doc"
      using first_block_fenced [of pre tag ws1 doc ws2 suf] by blast
    then show "first_block_interior reply = Some doc
        \<and> fst (getLLMResult env p) = Inr (JSON_parse env doc)"
      by (simp add: res)
  qed
  have whole: "\<not> has_fence reply
            \<or> (reply = lead @ fence @ rest \<and> \<not> has_fence lead
                 \<and> (lead = [] \<or> last lead \<noteq> CHR 0x60) \<and> \<not> has_fence rest)
            \<longrightarrow> first_block_interior reply = None
              \<and> fst (getLLMResult env p) = Inr (JSON_parse env reply)"
  proof (intro impI)
    assume "\<not> has_fence reply
            \<or> (reply = lead @ fence @ rest \<and> \<not> has_fence lead
                 \<and> (lead = [] \<or> last lead \<noteq> CHR 0x60) \<and> \<not> has_fence rest)"
    then have "first_block_interior reply = None"
    proof
      assume "\<not> has_fence reply"
      then show ?thesis by (rule first_block_none)
    next
      assume "reply = lead @ fence @ rest \<and> \<not> has_fence lead
                 \<and> (lead = [] \<or> last lead \<noteq> CHR 0x60) \<and> \<not> has_fence rest"
      then show ?thesis
        using first_block_skip [of lead "fence @ rest"] first_block_unclosed [of rest] by simp
    qed
    then show "first_block_interior reply = None
        \<and> fst (getLLMResult env p) = Inr (JSON_parse env reply)"
      by (simp add: res)
  qed
  from res block whole show ?thesis by (intro conjI)
qed

text \<open>
  The three replies of the specification (a fenced object amid prose, the bare object,
  prose only) and a reply whose fence is never closed.
\<close>

theorem structured_result_resolution_witness:
  "fst (getLLMResult (example_llm_env 200
          (''prefix ```json'' @ [newline] @ ''{\"a\":1}'' @ [newline] @ ''``` suffix''))
          ''Extract the first post only.'') = Inr (Some (JObj [(''a'', JNum 1)]))
   \<and> fst (getLLMResult (example_llm_env 200 ''{\"a\":1}'') ''Extract the first post only.'')
       = Inr (Some (JObj [(''a'', JNum 1)]))
   \<and> fst (getLLMResult (example_llm_env 200 ''I cannot help with that'')
          ''Extract the first post only.'') = Inr None
   \<and> first_block_interior ''Sure: ```json {\"a\":1}'' = None
   \<and> fst (getLLMResult (example_llm_env 200 ''Sure: ```json {\"a\":1}'')
          ''Extract the first post only.'') = Inr None"
proof -
  let ?p = "''Extract the first post only.''"
  let ?doc = "''{\"a\":1}''"
  let ?r1 = "''prefix ```json'' @ [newline] @ ?doc @ [newline] @ ''``` suffix''"
  let ?r3 = "''I cannot help with that''"
  let ?r4 = "''Sure: ```json {\"a\":1}''"
  have f: "http_fetch (example_llm_env 200 r) (aiUrl (example_llm_env 200 r)) ?p
      = Inr \<lparr>ok = True, http_status = 200, response_text = Inr ''upstream error'',
              response_json = Inr r\<rparr>" for r
    by (simp add: example_llm_env_def)
  have o: "ok \<lparr>ok = True, http_status = 200, response_text = Inr ''upstream error'',
              response_json = Inr r\<rparr>"
    and j: "response_json \<lparr>ok = True, http_status = 200, response_text = Inr ''upstream error'',
              response_json = Inr r\<rparr> = Inr r" for r :: string
    by simp_all
  have parse: "JSON_parse (example_llm_env 200 r) = example_parse" for r
    by (simp add: example_llm_env_def)
  have shape: "?r1 = ''prefix '' @ fence @ ''json'' @ [newline] @ ?doc @ [newline] @ fence @ '' suffix''"
    by (simp add: fence_def)
  have pre: "\<not> has_fence ''prefix '' \<and> (''prefix '' = [] \<or> last ''prefix '' \<noteq> CHR 0x60)"
    by (simp add: fence_def)
  have tag: "''json'' = ''json'' \<or> (''json'' = [] \<and> hd ([newline] @ ?doc) \<noteq> CHR ''j'')"
    by simp
  have ws: "list_all is_space [newline] \<and> list_all is_space [newline]"
    by (simp add: is_space_def newline_def)
  have doc: "?doc \<noteq> [] \<and> \<not> is_space (hd ?doc) \<and> \<not> is_space (last ?doc)
                 \<and> last ?doc \<noteq> CHR 0x60 \<and> \<not> has_fence ?doc"
    by (simp add: is_space_def fence_def)
  have bare: "\<not> has_fence ?doc
      \<or> (?doc = lead @ fence @ rest \<and> \<not> has_fence lead
           \<and> (lead = [] \<or> last lead \<noteq> CHR 0x60) \<and> \<not> has_fence rest)" for lead rest
    by (simp add: fence_def)
  have prose: "\<not> has_fence ?r3
      \<or> (?r3 = lead @ fence @ rest \<and> \<not> has_fence lead
           \<and> (lead = [] \<or> last lead \<noteq> CHR 0x60) \<and> \<not> has_fence rest)" for lead rest
    by (simp add: fence_def)
  have unclosed: "\<not> has_fence ?r4
      \<or> (?r4 = ''Sure: '' @ fence @ ''json {\"a\":1}'' \<and> \<not> has_fence ''Sure: ''
           \<and> (''Sure: '' = [] \<or> last ''Sure: '' \<noteq> CHR 0x60)
           \<and> \<not> has_fence ''json {\"a\":1}'')"
    by (simp add: fence_def)
  note first = structured_result_resolution [OF f o j, THEN conjunct2, THEN conjunct1,
      rule_format, OF shape pre tag ws doc]
  note second = structured_result_resolution [OF f o j, THEN conjunct2, THEN conjunct2,
      rule_format, OF bare]
  note third = structured_result_resolution [OF f o j, THEN conjunct2, THEN conjunct2,
      rule_format, OF prose]
  note fourth = structured_result_resolution [OF f o j, THEN conjunct2, THEN conjunct2,
      rule_format, OF unclosed]
  from first second third fourth show ?thesis
    by (simp add: parse example_parse_def)
qed

text \<open>
  C2 as stated fails for a fenced object whose text holds triple backticks: the block ends
  at the first of them, so the valid object \<open>{"md":"```x```"}\<close> fenced amid prose is cut to
  \<open>{"md":"\<close> and the reply is unresolved.
\<close>

theorem fenced_object_unresolved_counterexample:
  "example_parse_md ''{\"md\":\"```x```\"}'' = Some (JObj [(''md'', JStr ''```x```'')])
   \<and> fst (getLLMResult
        ((example_llm_env 200
            (''Here you go: ```json'' @ [newline] @ ''{\"md\":\"```x```\"}'' @ [newline]
             @ ''``` done''))\<lparr>JSON_parse := example_parse_md\<rparr>)
        ''Extract the first post only.'') = Inr None"
proof -
  let ?reply = "''Here you go: ```json'' @ [newline] @ ''{\"md\":\"```x```\"}'' @ [newline]
             @ ''``` done''"
  let ?env = "(example_llm_env 200 ?reply)\<lparr>JSON_parse := example_parse_md\<rparr>"
  let ?resp = "\<lparr>ok = True, http_status = 200, response_text = Inr ''upstream error'',
              response_json = Inr ?reply\<rparr>"
  have f: "http_fetch ?env (aiUrl ?env) ''Extract the first post only.'' = Inr ?resp"
    by (simp add: example_llm_env_def)
  have o: "ok ?resp" and j: "response_json ?resp = Inr ?reply" by simp_all
  have shape: "?reply = ''Here you go: '' @ fence @ ''json'' @ [newline] @ ''{\"md\":\"'' @ []
      @ fence @ (''x```\"}'' @ [newline] @ ''``` done'')"
    by (simp add: fence_def)
  have "candidate (''Here you go: '' @ fence @ ''json'' @ [newline] @ ''{\"md\":\"'' @ []
      @ fence @ (''x```\"}'' @ [newline] @ ''``` done'')) = Some ''{\"md\":\"''"
    by (rule candidate_fenced) (simp_all add: fence_def is_space_def newline_def)
  then have c: "candidate ?reply = Some ''{\"md\":\"''"
    by (simp only: shape)
  have "fst (getLLMResult ?env ''Extract the first post only.'')
      = Inr (JSON_parse ?env ''{\"md\":\"'')"
    unfolding getLLMResult_ok [OF f o j] c by simp
  then show ?thesis
    by (simp add: example_parse_md_def)
qed

subsection \<open>Sessions on every path, and the marker of the link analysis\<close>

text \<open>
  Every run of the \<open>switch\<close> launches one browser and closes none: a valid request that
  succeeds releases its session afterwards, a valid request that raises in the \<open>switch\<close>
  never does.
\<close>

lemma route_sessions:
  "released (snd (route env d)) = 0 \<and> acquired (snd (route env d)) = 1"
proof -
  obtain r t where nav: "launchAndNavigate env (url d) (renderOptions d) = (r, t)"
    by (cases "launchAndNavigate env (url d) (renderOptions d)")
  have t: "count_list t Close = 0" "count_list t Launch = 1"
    using launchAndNavigate_acquires [of env "url d" "renderOptions d"] nav
    by (simp_all add: acquired_def released_def)
  show ?thesis
  proof (cases "action d")
    case analyze_image
    show ?thesis
      unfolding route_analyze_image [OF analyze_image] nav
      by (simp add: t acquired_def released_def split: sum.splits)
  next
    case summarize_text
    show ?thesis
      unfolding route_summarize_text [OF summarize_text] nav
      by (simp add: t acquired_def released_def split: sum.splits)
  next
    case extract_html
    show ?thesis
      unfolding route_extract_html [OF extract_html] nav
      by (simp add: t acquired_def released_def split: sum.splits)
  qed
qed

lemma session_left_open_on_fault:
  assumes "request_method req = ''POST''" and "json_body req = Inr b"
    and "safeParse (RequestSchema (valid_url env)) b = Inr d"
    and "route env d = (Inl e, t)"
  shows "released (snd (fetch req env)) = 0 \<and> acquired (snd (fetch req env)) = 1"
  using route_sessions [of env d]
  unfolding fetch_valid [OF assms(1-3)] assms(4)
  by (simp add: acquired_def released_def)

lemma session_released_on_success:
  assumes "request_method req = ''POST''" and "json_body req = Inr b"
    and "safeParse (RequestSchema (valid_url env)) b = Inr d"
    and "route env d = (Inr dat, t)"
  shows "released (snd (fetch req env)) = 1 \<and> acquired (snd (fetch req env)) = 1"
  using route_sessions [of env d]
  unfolding fetch_valid [OF assms(1-3)] assms(4)
  by (simp add: acquired_def released_def split: sum.splits)

text \<open>
  In the link analysis a text that was cut is told from every text that was not.
\<close>

lemma link_truncation_marked:
  assumes "10000 < length long" and "length whole \<le> 10000"
  shows "limit_content long \<noteq> limit_content whole"
proof -
  have "length (limit_content long) = 10003"
    using assms(1) by (simp add: limit_content_def)
  moreover have "length (limit_content whole) \<le> 10000"
    using assms(2) by (simp add: limit_content_def)
  ultimately show ?thesis by auto
qed

end
